theory Spec2Isabelle
  imports Complex_Main
begin

section \<open>JavaScript values read by the monitor\<close>

text \<open>
  The router answers \<^verbatim>\<open>/api/model.json\<close> with a JSON document, which
  \<^verbatim>\<open>fetchStats\<close> hands to \<^verbatim>\<open>displayStats\<close> after \<^verbatim>\<open>JSON.parse\<close>.
  A parsed value is a \<open>jsval\<close>; \<open>JUndefined\<close> is what reading a missing property gives.
  An object is the list of its bindings, the first binding of a key being the one in force.
  \<open>JNum\<close> carries an integer-valued number. Numbers are exact (integers and rationals)
  rather than IEEE doubles: the two agree on the integers below \<open>2^53\<close> in magnitude
  and on their sums and differences within that range, while a quotient is rounded in
  the code and exact here. Strings are lists of code units below 256.
\<close>

datatype jsval =
    JUndefined
  | JNull
  | JBool bool
  | JNum int
  | JStr string
  | JArr "jsval list"
  | JObj "(string \<times> jsval) list"

datatype error = TypeError | RangeError

text \<open>Sequencing of computations that may throw.\<close>

definition thenDo :: "error + 'a \<Rightarrow> ('a \<Rightarrow> error + 'b) \<Rightarrow> error + 'b" where
  "thenDo m f = (case m of Inl e \<Rightarrow> Inl e | Inr v \<Rightarrow> f v)"

text \<open>JavaScript truthiness (\<^verbatim>\<open>if (v)\<close>, \<^verbatim>\<open>!v\<close>, \<^verbatim>\<open>a && b\<close>, \<^verbatim>\<open>a || b\<close>).\<close>

fun truthy :: "jsval \<Rightarrow> bool" where
  "truthy JUndefined = False"
| "truthy JNull = False"
| "truthy (JBool b) = b"
| "truthy (JNum n) = (n \<noteq> 0)"
| "truthy (JStr s) = (s \<noteq> [])"
| "truthy (JArr xs) = True"
| "truthy (JObj kvs) = True"

text \<open>
  Property access \<^verbatim>\<open>v.k\<close>: a TypeError on \<^verbatim>\<open>undefined\<close> and \<^verbatim>\<open>null\<close>,
  the bound value on an object, \<^verbatim>\<open>undefined\<close> otherwise (none of the keys the
  monitor reads is a built-in property of a string, number, boolean or array).
\<close>

fun getProp :: "jsval \<Rightarrow> string \<Rightarrow> error + jsval" where
  "getProp JUndefined k = Inl TypeError"
| "getProp JNull k = Inl TypeError"
| "getProp (JObj kvs) k = Inr (case map_of kvs k of None \<Rightarrow> JUndefined | Some v \<Rightarrow> v)"
| "getProp v k = Inr JUndefined"

text \<open>\<^verbatim>\<open>a && a.k\<close>: the property is read only when \<open>a\<close> is truthy.\<close>

definition andProp :: "jsval \<Rightarrow> string \<Rightarrow> error + jsval" where
  "andProp a k = (if truthy a then getProp a k else Inr a)"

text \<open>\<^verbatim>\<open>a || b\<close> on values.\<close>

definition orElse :: "jsval \<Rightarrow> jsval \<Rightarrow> jsval" where
  "orElse a b = (if truthy a then a else b)"

subsection \<open>String conversion and \<^verbatim>\<open>parseInt\<close>\<close>

definition digitChar :: "nat \<Rightarrow> char" where
  "digitChar d = char_of (48 + d)"

fun digits10 :: "nat \<Rightarrow> string" where
  "digits10 n = (if n < 10 then [digitChar n] else digits10 (n div 10) @ [digitChar (n mod 10)])"

declare digits10.simps [simp del]

text \<open>
  \<^verbatim>\<open>String(v)\<close>, where it completes. A number is written in decimal, as it is below
  \<open>10^21\<close> in magnitude. An array joins the strings of its elements with commas, an
  element that is \<^verbatim>\<open>null\<close> or \<^verbatim>\<open>undefined\<close> giving the empty string.
\<close>

fun ToString :: "jsval \<Rightarrow> string" and joinElems :: "jsval list \<Rightarrow> string" where
  "ToString JUndefined = ''undefined''"
| "ToString JNull = ''null''"
| "ToString (JBool b) = (if b then ''true'' else ''false'')"
| "ToString (JNum n) = (if n < 0 then CHR ''-'' # digits10 (nat (- n)) else digits10 (nat n))"
| "ToString (JStr s) = s"
| "ToString (JArr xs) = joinElems xs"
| "ToString (JObj kvs) = ''[object Object]''"
| "joinElems [] = []"
| "joinElems (x # xs) =
     (case x of JUndefined \<Rightarrow> [] | JNull \<Rightarrow> [] | _ \<Rightarrow> ToString x)
       @ (if xs = [] then [] else CHR '','' # joinElems xs)"

text \<open>
  Whether \<^verbatim>\<open>String(v)\<close> completes. On an object the conversion calls the method
  \<^verbatim>\<open>toString\<close>, then \<^verbatim>\<open>valueOf\<close>: an object parsed from JSON inherits both,
  unless it has a property of that name, which is never a function. An object with a
  property named \<^verbatim>\<open>toString\<close> of its own therefore has no conversion and
  \<^verbatim>\<open>String(v)\<close> throws a TypeError, as does \<^verbatim>\<open>parseInt(v)\<close>; so it is with an
  array that holds such an object. \<open>ToString\<close> above is the string for the values on
  which \<open>stringifies\<close> holds.
\<close>

fun stringifies :: "jsval \<Rightarrow> bool" and stringifiesAll :: "jsval list \<Rightarrow> bool" where
  "stringifies (JObj kvs) = (map_of kvs ''toString'' = None)"
| "stringifies (JArr xs) = stringifiesAll xs"
| "stringifies JUndefined = True"
| "stringifies JNull = True"
| "stringifies (JBool b) = True"
| "stringifies (JNum n) = True"
| "stringifies (JStr s) = True"
| "stringifiesAll [] = True"
| "stringifiesAll (x # xs) = (stringifies x \<and> stringifiesAll xs)"

definition StrWhiteSpaceChar :: "char \<Rightarrow> bool" where
  "StrWhiteSpaceChar c = ((of_char c :: nat) \<in> {9, 10, 11, 12, 13, 32, 160})"

definition digitValue :: "char \<Rightarrow> nat option" where
  "digitValue c =
     (let n = (of_char c :: nat) in
      if 48 \<le> n \<and> n \<le> 57 then Some (n - 48)
      else if 97 \<le> n \<and> n \<le> 122 then Some (n - 87)
      else if 65 \<le> n \<and> n \<le> 90 then Some (n - 55)
      else None)"

text \<open>The values of the longest prefix of digits of radix \<open>R\<close>.\<close>

fun radixDigits :: "nat \<Rightarrow> string \<Rightarrow> nat list" where
  "radixDigits R [] = []"
| "radixDigits R (c # cs) =
     (case digitValue c of
        None \<Rightarrow> []
      | Some d \<Rightarrow> if d < R then d # radixDigits R cs else [])"

definition mathInt :: "nat \<Rightarrow> nat list \<Rightarrow> nat" where
  "mathInt R ds = foldl (\<lambda>a d. a * R + d) 0 ds"

text \<open>
  \<^verbatim>\<open>parseInt(s)\<close> with no radix argument: leading white space is skipped, a sign is
  read, a \<^verbatim>\<open>0x\<close> prefix selects radix 16, and the longest prefix of digits is the
  number; \<open>None\<close> is \<^verbatim>\<open>NaN\<close> (no digit at all). The number is the exact value of
  the digits, which is what \<^verbatim>\<open>parseInt\<close> returns below \<open>2^53\<close>.
\<close>

definition parseIntStr :: "string \<Rightarrow> int option" where
  "parseIntStr inputString =
     (let S = dropWhile StrWhiteSpaceChar inputString;
          sign = (if S \<noteq> [] \<and> hd S = CHR ''-'' then - 1 else 1 :: int);
          S1 = (if S \<noteq> [] \<and> (hd S = CHR ''+'' \<or> hd S = CHR ''-'') then tl S else S);
          hex = (take 2 S1 = ''0x'' \<or> take 2 S1 = ''0X'');
          R = (if hex then 16 else 10);
          S2 = (if hex then drop 2 S1 else S1);
          Z = radixDigits R S2
      in if Z = [] then None else Some (sign * int (mathInt R Z)))"

definition parseInt :: "jsval \<Rightarrow> int option" where
  "parseInt v = parseIntStr (ToString v)"

text \<open>\<^verbatim>\<open>parseInt(v) || 0\<close>: \<^verbatim>\<open>NaN\<close> and \<open>0\<close> are falsy.\<close>

definition parseIntOr0 :: "jsval \<Rightarrow> int" where
  "parseIntOr0 v = (case parseInt v of None \<Rightarrow> 0 | Some n \<Rightarrow> n)"

section \<open>Configuration\<close>

text \<open>The poll interval in milliseconds, and \<^verbatim>\<open>bandwidthHistory.maxSamples\<close>.\<close>

definition POLL_INTERVAL :: int where
  "POLL_INTERVAL = 5000"

definition maxSamples :: nat where
  "maxSamples = 66"

section \<open>Normalization of a raw snapshot\<close>

text \<open>\<^verbatim>\<open>data.wifi && data.wifi.offload\<close> and \<^verbatim>\<open>data.ethernet && data.ethernet.offload\<close>.\<close>

definition wifiOffloadOf :: "jsval \<Rightarrow> error + jsval" where
  "wifiOffloadOf data = thenDo (getProp data ''wifi'') (\<lambda>wifi. andProp wifi ''offload'')"

definition ethOffloadOf :: "jsval \<Rightarrow> error + jsval" where
  "ethOffloadOf data = thenDo (getProp data ''ethernet'') (\<lambda>eth. andProp eth ''offload'')"

text \<open>
  The offload counters in standard convention, as a pair (download, upload):
  \<^verbatim>\<open>tx\<close> is download and \<^verbatim>\<open>rx\<close> is upload. The WiFi counters sit under
  \<^verbatim>\<open>wifiOffload.dataTransferred\<close> and count only when that object is there; the
  Ethernet counters sit on \<^verbatim>\<open>ethOffload\<close> itself.
\<close>

definition wifiOffloadCounters :: "jsval \<Rightarrow> error + int \<times> int" where
  "wifiOffloadCounters wifiOffload =
     thenDo (andProp wifiOffload ''dataTransferred'') (\<lambda>dt.
       if truthy dt then
         thenDo (getProp dt ''tx'') (\<lambda>tx.
         thenDo (getProp dt ''rx'') (\<lambda>rx.
           Inr (parseIntOr0 tx, parseIntOr0 rx)))
       else Inr (0, 0))"

definition ethOffloadCounters :: "jsval \<Rightarrow> error + int \<times> int" where
  "ethOffloadCounters ethOffload =
     (if truthy ethOffload then
        thenDo (getProp ethOffload ''tx'') (\<lambda>tx.
        thenDo (getProp ethOffload ''rx'') (\<lambda>rx.
          Inr (parseIntOr0 tx, parseIntOr0 rx)))
      else Inr (0, 0))"

text \<open>
  The aggregation of \<^verbatim>\<open>displayStats\<close>, written twice there in the same shape: on
  the current snapshot (\<^verbatim>\<open>totalDownload\<close>, \<^verbatim>\<open>totalUpload\<close>) and on
  \<^verbatim>\<open>previousStats\<close> (\<^verbatim>\<open>prevDownload\<close>, \<^verbatim>\<open>prevUpload\<close>). The result is the
  pair (download, upload).
\<close>

definition aggregateTotals :: "jsval \<Rightarrow> error + int \<times> int" where
  "aggregateTotals data =
     thenDo (getProp data ''wwan'') (\<lambda>wwan.
     thenDo (getProp wwan ''dataTransferredRx'') (\<lambda>crx.
     thenDo (getProp wwan ''dataTransferredTx'') (\<lambda>ctx.
     thenDo (wifiOffloadOf data) (\<lambda>wifiOffload.
     thenDo (wifiOffloadCounters wifiOffload) (\<lambda>(wdl, wul).
     thenDo (ethOffloadOf data) (\<lambda>ethOffload.
     thenDo (ethOffloadCounters ethOffload) (\<lambda>(edl, eul).
       Inr (parseIntOr0 crx + wdl + edl, parseIntOr0 ctx + wul + eul))))))))"

text \<open>
  \<^verbatim>\<open>parseInt(dataUsage.dataTransferred || 0) + parseInt(dataUsage.dataTransferredRoaming || 0)\<close>;
  \<open>None\<close> is \<^verbatim>\<open>NaN\<close>.
\<close>

definition lifetimeOf :: "jsval \<Rightarrow> error + int option" where
  "lifetimeOf data =
     thenDo (getProp data ''wwan'') (\<lambda>wwan.
     thenDo (getProp wwan ''dataUsage'') (\<lambda>du.
     thenDo (getProp du ''generic'') (\<lambda>dataUsage.
     thenDo (getProp dataUsage ''dataTransferred'') (\<lambda>lt.
     thenDo (getProp dataUsage ''dataTransferredRoaming'') (\<lambda>rt.
       Inr (case (parseInt (orElse lt (JNum 0)), parseInt (orElse rt (JNum 0))) of
              (Some a, Some b) \<Rightarrow> Some (a + b)
            | _ \<Rightarrow> None))))))"

text \<open>
  \<^verbatim>\<open>wifiOffload && wifiOffload.enabled && wifiOffload.status === 'On' && wifiOffload.connectionSsid\<close>:
  the value of the chain, which is the first falsy operand or the last one.
\<close>

definition wifiActiveOf :: "jsval \<Rightarrow> error + jsval" where
  "wifiActiveOf wifiOffload =
     (if \<not> truthy wifiOffload then Inr wifiOffload
      else thenDo (getProp wifiOffload ''enabled'') (\<lambda>enabled.
        if \<not> truthy enabled then Inr enabled
        else thenDo (getProp wifiOffload ''status'') (\<lambda>status.
          if status \<noteq> JStr ''On'' then Inr (JBool False)
          else getProp wifiOffload ''connectionSsid'')))"

text \<open>
  \<^verbatim>\<open>ethOffload && ethOffload.enabled && ethOffload.on && ethOffload.ipv4Addr && ethOffload.ipv4Addr !== '0.0.0.0'\<close>.
\<close>

definition ethActiveOf :: "jsval \<Rightarrow> error + jsval" where
  "ethActiveOf ethOffload =
     (if \<not> truthy ethOffload then Inr ethOffload
      else thenDo (getProp ethOffload ''enabled'') (\<lambda>enabled.
        if \<not> truthy enabled then Inr enabled
        else thenDo (getProp ethOffload ''on'') (\<lambda>on.
          if \<not> truthy on then Inr on
          else thenDo (getProp ethOffload ''ipv4Addr'') (\<lambda>ip.
            if \<not> truthy ip then Inr ip
            else Inr (JBool (ip \<noteq> JStr ''0.0.0.0''))))))"

record snapshot =
  totalDownload :: int
  totalUpload :: int
  totalLifetimeBytes :: "int option"
  cellularDownload :: int
  cellularUpload :: int
  wifiOffloadDownload :: int
  wifiOffloadUpload :: int
  wifiOffloadActive :: jsval
  wifiOffloadSsid :: jsval
  wifiOffloadRssi :: jsval
  wifiOffloadBars :: jsval
  ethernetOffloadDownload :: int
  ethernetOffloadUpload :: int
  ethernetOffloadActive :: jsval

text \<open>
  Everything \<^verbatim>\<open>displayStats\<close> derives from one raw snapshot before it touches the
  database: the aggregate totals, the lifetime usage and the per-source breakdown.
\<close>

definition normalize :: "jsval \<Rightarrow> error + snapshot" where
  "normalize data =
     thenDo (aggregateTotals data) (\<lambda>(dl, ul).
     thenDo (lifetimeOf data) (\<lambda>lifetime.
     thenDo (getProp data ''wwan'') (\<lambda>wwan.
     thenDo (getProp wwan ''dataTransferredRx'') (\<lambda>crx.
     thenDo (getProp wwan ''dataTransferredTx'') (\<lambda>ctx.
     thenDo (wifiOffloadOf data) (\<lambda>wifiOffload.
     thenDo (wifiOffloadCounters wifiOffload) (\<lambda>(wdl, wul).
     thenDo (wifiActiveOf wifiOffload) (\<lambda>wactive.
     thenDo (if truthy wactive then getProp wifiOffload ''connectionSsid'' else Inr JNull) (\<lambda>ssid.
     thenDo (if truthy wactive
             then thenDo (getProp wifiOffload ''rssi'') (\<lambda>r. Inr (orElse r JNull))
             else Inr JNull) (\<lambda>rssi.
     thenDo (if truthy wactive
             then thenDo (getProp wifiOffload ''bars'') (\<lambda>b. Inr (orElse b JNull))
             else Inr JNull) (\<lambda>bars.
     thenDo (ethOffloadOf data) (\<lambda>ethOffload.
     thenDo (ethOffloadCounters ethOffload) (\<lambda>(edl, eul).
     thenDo (ethActiveOf ethOffload) (\<lambda>eactive.
       Inr \<lparr> totalDownload = dl, totalUpload = ul, totalLifetimeBytes = lifetime,
             cellularDownload = parseIntOr0 crx, cellularUpload = parseIntOr0 ctx,
             wifiOffloadDownload = wdl, wifiOffloadUpload = wul,
             wifiOffloadActive = wactive, wifiOffloadSsid = ssid,
             wifiOffloadRssi = rssi, wifiOffloadBars = bars,
             ethernetOffloadDownload = edl, ethernetOffloadUpload = eul,
             ethernetOffloadActive = eactive \<rparr>))))))))))))))"

text \<open>
  The two guards of \<^verbatim>\<open>displayStats\<close> that return early:
  \<^verbatim>\<open>!data || !data.wwan || !data.general || !data.power\<close> and
  \<^verbatim>\<open>!wwan.dataUsage || !wwan.dataUsage.generic\<close>.
\<close>

definition truthyProp :: "jsval \<Rightarrow> string \<Rightarrow> bool" where
  "truthyProp v k = (truthy v \<and> (case getProp v k of Inl e \<Rightarrow> False | Inr x \<Rightarrow> truthy x))"

definition validData :: "jsval \<Rightarrow> bool" where
  "validData data =
     (truthy data \<and> truthyProp data ''wwan'' \<and> truthyProp data ''general'' \<and> truthyProp data ''power'')"

definition hasDataUsage :: "jsval \<Rightarrow> bool" where
  "hasDataUsage data =
     (case getProp data ''wwan'' of
        Inl e \<Rightarrow> False
      | Inr wwan \<Rightarrow>
          truthyProp wwan ''dataUsage'' \<and>
          (case getProp wwan ''dataUsage'' of
             Inl e \<Rightarrow> False
           | Inr du \<Rightarrow> truthyProp du ''generic''))"

section \<open>The database tables and the in-memory state\<close>

text \<open>
  A JavaScript number that results from arithmetic on counters: \<open>Some q\<close> is the finite
  value \<open>q\<close>, \<open>None\<close> stands for a value that is not finite (\<^verbatim>\<open>Infinity\<close>, \<^verbatim>\<open>NaN\<close>).
\<close>

type_synonym number = "rat option"

text \<open>
  One row of \<^verbatim>\<open>timeseries_data\<close>; a table is the list of its rows in insertion
  order. Columns declared \<^verbatim>\<open>NOT NULL\<close> hold a value, the per-source columns may be
  \<^verbatim>\<open>NULL\<close> (\<open>None\<close>, or \<open>JNull\<close> where the bound value is kept as it came).
\<close>

record tsrow =
  timestamp :: int
  total_rx_bytes :: int
  total_tx_bytes :: int
  session_duration :: jsval
  lifetime_bytes :: "int option"
  signal_rsrp :: jsval
  signal_rsrq :: jsval
  signal_sinr :: jsval
  cellular_download :: "int option"
  cellular_upload :: "int option"
  wifi_offload_download :: "int option"
  wifi_offload_upload :: "int option"
  wifi_offload_active :: "int option"
  wifi_offload_ssid :: jsval
  wifi_offload_rssi :: jsval
  wifi_offload_bars :: jsval
  ethernet_offload_download :: "int option"
  ethernet_offload_upload :: "int option"
  ethernet_offload_active :: "int option"

text \<open>One row of the legacy table \<^verbatim>\<open>bandwidth_history\<close>.\<close>

record bwrow =
  bw_timestamp :: int
  download_speed :: number
  upload_speed :: number

text \<open>
  The module-level variables that a poll cycle reads and writes, with the two tables:
  \<^verbatim>\<open>previousStats\<close> (\<^verbatim>\<open>null\<close> at start) and the two arrays of
  \<^verbatim>\<open>bandwidthHistory\<close>.
\<close>

record state =
  timeseries_data :: "tsrow list"
  bandwidth_history :: "bwrow list"
  previousStats :: jsval
  historyDownload :: "number list"
  historyUpload :: "number list"

text \<open>
  \<^verbatim>\<open>saveTimeseriesData\<close>: the second and third parameters are the columns
  \<^verbatim>\<open>total_rx_bytes\<close> and \<^verbatim>\<open>total_tx_bytes\<close>; the two flags are stored as 1 or 0.
  The row is written with each value as it came; what the database driver does with a
  value it cannot bind is outside the model.
\<close>

definition saveTimeseriesData ::
  "tsrow list \<Rightarrow> int \<Rightarrow> int \<Rightarrow> int \<Rightarrow> jsval \<Rightarrow> int option \<Rightarrow> jsval \<Rightarrow> jsval \<Rightarrow> jsval \<Rightarrow>
   int \<Rightarrow> int \<Rightarrow> int \<Rightarrow> int \<Rightarrow> jsval \<Rightarrow> jsval \<Rightarrow> jsval \<Rightarrow> jsval \<Rightarrow> int \<Rightarrow> int \<Rightarrow> jsval \<Rightarrow>
   tsrow list" where
  "saveTimeseriesData db ts totalRx totalTx sessionDuration lifetimeBytes signalRsrp signalRsrq
       signalSinr cellularDl cellularUl wifiDl wifiUl wifiActive wifiSsid wifiRssi wifiBars
       ethDl ethUl ethActive =
     db @ [\<lparr> timestamp = ts, total_rx_bytes = totalRx, total_tx_bytes = totalTx,
             session_duration = sessionDuration, lifetime_bytes = lifetimeBytes,
             signal_rsrp = signalRsrp, signal_rsrq = signalRsrq, signal_sinr = signalSinr,
             cellular_download = Some cellularDl, cellular_upload = Some cellularUl,
             wifi_offload_download = Some wifiDl, wifi_offload_upload = Some wifiUl,
             wifi_offload_active = Some (if truthy wifiActive then 1 else 0),
             wifi_offload_ssid = wifiSsid, wifi_offload_rssi = wifiRssi,
             wifi_offload_bars = wifiBars,
             ethernet_offload_download = Some ethDl, ethernet_offload_upload = Some ethUl,
             ethernet_offload_active = Some (if truthy ethActive then 1 else 0) \<rparr>]"

definition saveBandwidthData :: "bwrow list \<Rightarrow> int \<Rightarrow> number \<Rightarrow> number \<Rightarrow> bwrow list" where
  "saveBandwidthData db now downloadSpeed uploadSpeed =
     db @ [\<lparr> bw_timestamp = now, download_speed = downloadSpeed, upload_speed = uploadSpeed \<rparr>]"

section \<open>Gap detection and interpolation\<close>

text \<open>
  The row the query of \<^verbatim>\<open>handleDataGap\<close> selects
  (\<^verbatim>\<open>WHERE lifetime_bytes IS NOT NULL ORDER BY timestamp DESC LIMIT 1\<close>): among the rows
  with a lifetime value, the one with the greatest timestamp. The query runs down the
  index on \<^verbatim>\<open>timestamp DESC\<close>, in which rows of one timestamp stand in the order of
  their insertion: should two rows share the greatest timestamp, it is the one inserted
  first.
\<close>

definition lastEntry :: "tsrow list \<Rightarrow> tsrow option" where
  "lastEntry db =
     (case filter (\<lambda>r. lifetime_bytes r \<noteq> None) db of
        [] \<Rightarrow> None
      | x # xs \<Rightarrow> Some (hd (sort_key (\<lambda>r. - timestamp r) (x # xs))))"

text \<open>The row one iteration of the interpolation loop inserts; the other columns stay \<^verbatim>\<open>NULL\<close>.\<close>

definition interpolatedRow :: "int \<Rightarrow> int \<Rightarrow> tsrow" where
  "interpolatedRow interpolatedTimestamp interpolatedLifetime =
     \<lparr> timestamp = interpolatedTimestamp, total_rx_bytes = 0, total_tx_bytes = 0,
       session_duration = JNum 0, lifetime_bytes = Some interpolatedLifetime,
       signal_rsrp = JNull, signal_rsrq = JNull, signal_sinr = JNull,
       cellular_download = None, cellular_upload = None,
       wifi_offload_download = None, wifi_offload_upload = None,
       wifi_offload_active = None,
       wifi_offload_ssid = JNull, wifi_offload_rssi = JNull, wifi_offload_bars = JNull,
       ethernet_offload_download = None, ethernet_offload_upload = None,
       ethernet_offload_active = None \<rparr>"

text \<open>
  The rows of the loop \<^verbatim>\<open>for (let i = 1; i < numIntervals; i++)\<close>, in the order in
  which they are inserted.
\<close>

definition interpolatedRows :: "int \<Rightarrow> int \<Rightarrow> int \<Rightarrow> int \<Rightarrow> tsrow list" where
  "interpolatedRows lastTimestamp lastLifetime lifetimeDelta numIntervals =
     (let bytesPerInterval = (of_int lifetimeDelta / of_int numIntervals :: rat) in
      map (\<lambda>i. interpolatedRow (lastTimestamp + i * POLL_INTERVAL)
                 \<lfloor>of_int lastLifetime + bytesPerInterval * of_int i\<rfloor>)
          [1 .. numIntervals - 1])"

text \<open>
  \<^verbatim>\<open>handleDataGap\<close>: the value returned and the table afterwards. The lifetime
  argument is \<open>None\<close> when it is \<^verbatim>\<open>NaN\<close>, which compares false with everything.
\<close>

definition handleDataGap :: "tsrow list \<Rightarrow> int \<Rightarrow> int option \<Rightarrow> bool \<times> tsrow list" where
  "handleDataGap db currentTimestamp lifetimeBytes =
     (case lastEntry db of
        None \<Rightarrow> (False, db)
      | Some le \<Rightarrow>
          (case (lifetimeBytes, lifetime_bytes le) of
             (Some lb, Some ll) \<Rightarrow>
               (let timeSinceLastPoll = currentTimestamp - timestamp le;
                    gapThreshold = POLL_INTERVAL * 3
                in if timeSinceLastPoll > gapThreshold \<and> lb > ll then
                     (let lifetimeDelta = lb - ll;
                          numIntervals = timeSinceLastPoll div POLL_INTERVAL
                      in if numIntervals > 0
                            \<and> numIntervals < 24 * 60 * 60 * 1000 div POLL_INTERVAL
                            \<and> lifetimeDelta > 0
                         then (True, db @ interpolatedRows (timestamp le) ll lifetimeDelta numIntervals)
                         else (False, db))
                   else (False, db))
           | _ \<Rightarrow> (False, db)))"

section \<open>Usage over time windows\<close>

text \<open>The SQL aggregates \<^verbatim>\<open>MIN\<close> and \<^verbatim>\<open>MAX\<close>: \<^verbatim>\<open>NULL\<close> over no rows.\<close>

fun sqlMin :: "int list \<Rightarrow> int option" where
  "sqlMin [] = None"
| "sqlMin (x # xs) = Some (fold min xs x)"

fun sqlMax :: "int list \<Rightarrow> int option" where
  "sqlMax [] = None"
| "sqlMax (x # xs) = Some (fold max xs x)"

text \<open>The rows a window selects (\<^verbatim>\<open>WHERE timestamp >= ?\<close>) and their aggregates.\<close>

definition windowRows :: "tsrow list \<Rightarrow> int \<Rightarrow> tsrow list" where
  "windowRows db cutoffTime = filter (\<lambda>r. timestamp r \<ge> cutoffTime) db"

definition aggregateBytes :: "tsrow \<Rightarrow> int" where
  "aggregateBytes r = total_rx_bytes r + total_tx_bytes r"

text \<open>One iteration of the loop of \<^verbatim>\<open>calculateUsageOverTime\<close>; \<open>None\<close> is \<^verbatim>\<open>null\<close>.\<close>

definition usageSince :: "tsrow list \<Rightarrow> int \<Rightarrow> int option" where
  "usageSince db cutoffTime =
     (let totals = map aggregateBytes (windowRows db cutoffTime);
          start_bytes = sqlMin totals;
          end_bytes = sqlMax totals
      in case (start_bytes, end_bytes) of
           (Some s, Some e) \<Rightarrow> Some (e - s)
         | _ \<Rightarrow> None)"

definition periods :: "(string \<times> int) list" where
  "periods =
     [(''5m'', 5 * 60 * 1000), (''15m'', 15 * 60 * 1000), (''30m'', 30 * 60 * 1000),
      (''45m'', 45 * 60 * 1000), (''1h'', 60 * 60 * 1000), (''6h'', 6 * 60 * 60 * 1000),
      (''12h'', 12 * 60 * 60 * 1000), (''24h'', 24 * 60 * 60 * 1000)]"

definition calculateUsageOverTime :: "tsrow list \<Rightarrow> int \<Rightarrow> (string \<times> int option) list" where
  "calculateUsageOverTime db now = map (\<lambda>(label, w). (label, usageSince db (now - w))) periods"

section \<open>Bandwidth\<close>

text \<open>
  \<^verbatim>\<open>calculateBandwidth\<close>. \<^verbatim>\<open>!previousBytes\<close> holds of the number 0. With a zero
  interval the quotient is not finite: \<^verbatim>\<open>Math.max(0, -Infinity)\<close> is 0, while
  \<^verbatim>\<open>Infinity\<close> and \<^verbatim>\<open>NaN\<close> pass through \<^verbatim>\<open>Math.max\<close>.
\<close>

definition calculateBandwidth :: "int \<Rightarrow> int \<Rightarrow> int \<Rightarrow> number" where
  "calculateBandwidth currentBytes previousBytes timeInterval =
     (if previousBytes = 0 then Some 0
      else let bytesDiff = currentBytes - previousBytes in
        if timeInterval = 0 then (if bytesDiff < 0 then Some 0 else None)
        else let bytesPerSecond = (of_int bytesDiff / of_int timeInterval) * 1000
             in Some (max 0 bytesPerSecond))"

record speedHistory =
  download :: "number list"
  upload :: "number list"
  timestamps :: "int list"

text \<open>
  The loop of \<^verbatim>\<open>calculateSpeedsFromTimeseries\<close> over the rows, oldest first: one
  sample for each pair of consecutive rows that passes the test.
\<close>

fun speedsLoop :: "tsrow list \<Rightarrow> speedHistory" where
  "speedsLoop (previous # current # rest) =
     (let timeDiffMs = timestamp current - timestamp previous;
          timeDiffSec = (of_int timeDiffMs / 1000 :: rat);
          rxDiff = total_rx_bytes current - total_rx_bytes previous;
          txDiff = total_tx_bytes current - total_tx_bytes previous;
          more = speedsLoop (current # rest)
      in if rxDiff \<ge> 0 \<and> txDiff \<ge> 0 \<and> timeDiffSec > 0 then
           \<lparr> download = Some (of_int rxDiff / timeDiffSec) # download more,
             upload = Some (of_int txDiff / timeDiffSec) # upload more,
             timestamps = timestamp current # timestamps more \<rparr>
         else more)"
| "speedsLoop rows = \<lparr> download = [], upload = [], timestamps = [] \<rparr>"

text \<open>
  \<^verbatim>\<open>ORDER BY timestamp DESC LIMIT n\<close>: the \<open>n\<close> rows with the greatest timestamps,
  newest first, rows of one timestamp in the order of their insertion (the order of the
  index on \<^verbatim>\<open>timestamp DESC\<close>).
\<close>

definition newestFirst :: "('r \<Rightarrow> int) \<Rightarrow> nat \<Rightarrow> 'r list \<Rightarrow> 'r list" where
  "newestFirst ts n db = take n (sort_key (\<lambda>r. - ts r) db)"

definition calculateSpeedsFromTimeseries :: "tsrow list \<Rightarrow> nat \<Rightarrow> speedHistory" where
  "calculateSpeedsFromTimeseries db limit =
     (let rows = newestFirst timestamp (limit + 1) db in
      if length rows < 2 then \<lparr> download = [], upload = [], timestamps = [] \<rparr>
      else speedsLoop (rev rows))"

definition loadBandwidthHistory :: "bwrow list \<Rightarrow> nat \<Rightarrow> number list \<times> number list" where
  "loadBandwidthHistory db n =
     (let rows = rev (newestFirst bw_timestamp n db) in
      (map download_speed rows, map upload_speed rows))"

section \<open>The poll cycle\<close>

text \<open>
  \<^verbatim>\<open>bandwidthHistory.download.push(v)\<close> followed by the \<^verbatim>\<open>shift()\<close> taken when
  the array has grown beyond \<^verbatim>\<open>maxSamples\<close>. In \<^verbatim>\<open>displayStats\<close> the test reads the
  length of the download array and shifts both arrays.
\<close>

definition pushHistory :: "number list \<times> number list \<Rightarrow> number \<Rightarrow> number \<Rightarrow> number list \<times> number list" where
  "pushHistory h downloadSpeed uploadSpeed =
     (let dl = fst h @ [downloadSpeed];
          ul = snd h @ [uploadSpeed]
      in if length dl > maxSamples then (tl dl, tl ul) else (dl, ul))"

text \<open>
  \<^verbatim>\<open>signal.rsrp\<close>, \<^verbatim>\<open>signal.rsrq\<close>, \<^verbatim>\<open>signal.sinr\<close> and \<^verbatim>\<open>wwan.sessDuration\<close>,
  the arguments of \<^verbatim>\<open>saveTimeseriesData\<close> that are passed on as they come, where
  \<^verbatim>\<open>signal\<close> is \<^verbatim>\<open>wwan.signalStrength\<close>.
\<close>

definition signalOf :: "jsval \<Rightarrow> error + jsval \<times> jsval \<times> jsval \<times> jsval" where
  "signalOf data =
     thenDo (getProp data ''wwan'') (\<lambda>wwan.
     thenDo (getProp wwan ''signalStrength'') (\<lambda>signal.
     thenDo (getProp wwan ''sessDuration'') (\<lambda>sess.
     thenDo (getProp signal ''rsrp'') (\<lambda>rsrp.
     thenDo (getProp signal ''rsrq'') (\<lambda>rsrq.
     thenDo (getProp signal ''sinr'') (\<lambda>sinr.
       Inr (sess, rsrp, rsrq, sinr)))))))"

text \<open>
  The exception \<^verbatim>\<open>createDataBar(label, current, total, width)\<close> throws, if any; the
  string it returns is left out. \<^verbatim>\<open>String.prototype.repeat\<close> throws a RangeError on
  a negative count.
\<close>

definition createDataBar :: "int \<Rightarrow> int \<Rightarrow> int \<Rightarrow> error option" where
  "createDataBar current totalData width =
     (let percentage = (if totalData > 0 then of_int current / of_int totalData else 0 :: rat);
          filledWidth = \<lfloor>percentage * of_int width\<rfloor>;
          emptyWidth = width - filledWidth
      in if filledWidth < 0 \<or> emptyWidth < 0 then Some RangeError else None)"

text \<open>
  The two data bars of the bandwidth panel, which \<^verbatim>\<open>displayStats\<close> prints between
  the aggregation and the gap check when the panel is shown (as it is by default):
  \<^verbatim>\<open>createDataBar('Download', totalDownload, totalData, 35, ...)\<close> and
  \<^verbatim>\<open>createDataBar('Upload', totalUpload, totalData, 35, ...)\<close>.
\<close>

definition dataBars :: "int \<Rightarrow> int \<Rightarrow> error option" where
  "dataBars downloadBytes uploadBytes =
     (let totalData = downloadBytes + uploadBytes in
      case createDataBar downloadBytes totalData 35 of
        Some e \<Rightarrow> Some e
      | None \<Rightarrow> createDataBar uploadBytes totalData 35)"

text \<open>
  The bandwidth step of \<^verbatim>\<open>displayStats\<close> (\<^verbatim>\<open>if (previousStats) { ... }\<close>, down to
  the \<^verbatim>\<open>shift()\<close>), given the aggregate totals of the current snapshot: the totals of
  \<^verbatim>\<open>previousStats\<close> are aggregated, both speeds are computed over the nominal poll
  interval, written to \<^verbatim>\<open>bandwidth_history\<close> and pushed onto the history. \<open>bwNow\<close> is
  the clock reading \<^verbatim>\<open>saveBandwidthData\<close> takes.
\<close>

definition bandwidthStep :: "state \<Rightarrow> int \<Rightarrow> int \<Rightarrow> int \<Rightarrow> error option \<times> state" where
  "bandwidthStep s currentDownload currentUpload bwNow =
     (if \<not> truthy (previousStats s) then (None, s)
      else case aggregateTotals (previousStats s) of
        Inl e \<Rightarrow> (Some e, s)
      | Inr (prevDownload, prevUpload) \<Rightarrow>
          (let timeDiff = POLL_INTERVAL;
               downloadSpeed = calculateBandwidth currentDownload prevDownload timeDiff;
               uploadSpeed = calculateBandwidth currentUpload prevUpload timeDiff;
               s3 = s\<lparr> bandwidth_history :=
                      saveBandwidthData (bandwidth_history s) bwNow downloadSpeed uploadSpeed \<rparr>;
               h = pushHistory (historyDownload s3, historyUpload s3) downloadSpeed uploadSpeed
           in (None, s3\<lparr> historyDownload := fst h, historyUpload := snd h \<rparr>)))"

text \<open>
  The effects of \<^verbatim>\<open>displayStats(data)\<close> on the tables and on the bandwidth history,
  in the order of the source. \<open>ts\<close> is the clock reading taken before the gap check,
  \<open>bwNow\<close> the one \<^verbatim>\<open>saveBandwidthData\<close> takes. The result is the exception thrown,
  if any, and the state reached.

  This is the data path of a cycle. What is printed is left out, and with it the
  fields that only the printing code reads and the exceptions that code can throw,
  among them a TypeError on \<^verbatim>\<open>signal.bars\<close> or \<^verbatim>\<open>wwanAdv.curBand\<close> when the network
  panel shows a snapshot without \<^verbatim>\<open>wwan.signalStrength\<close> or \<^verbatim>\<open>wwanadv\<close>, on
  \<^verbatim>\<open>data.router.clientList.filter\<close> when there is no client list, and on a value that
  has no string; a RangeError in \<^verbatim>\<open>getSignalBars\<close> on a bar count outside 0 to 5, and
  in \<^verbatim>\<open>createDataBar\<close> (\<open>dataBars\<close> above). The printing code runs before the first
  and after the last of the effects below, never between two of them. So the
  definition gives what a cycle does when the printing code throws nothing; a cycle in
  which it throws before the gap check changes nothing, and one in which it throws
  after the bandwidth step has made every change below.
\<close>

definition displayStats :: "state \<Rightarrow> jsval \<Rightarrow> int \<Rightarrow> int \<Rightarrow> error option \<times> state" where
  "displayStats s data ts bwNow =
     (if \<not> validData data then (None, s)
      else if \<not> hasDataUsage data then (None, s)
      else case normalize data of
        Inl e \<Rightarrow> (Some e, s)
      | Inr n \<Rightarrow>
          (let s1 = s\<lparr> timeseries_data :=
                        snd (handleDataGap (timeseries_data s) ts (totalLifetimeBytes n)) \<rparr>
           in case signalOf data of
             Inl e \<Rightarrow> (Some e, s1)
           | Inr (sess, rsrp, rsrq, sinr) \<Rightarrow>
               (let s2 = s1\<lparr> timeseries_data :=
                     saveTimeseriesData (timeseries_data s1) ts
                       (totalUpload n) (totalDownload n)
                       sess (totalLifetimeBytes n) rsrp rsrq sinr
                       (cellularDownload n) (cellularUpload n)
                       (wifiOffloadDownload n) (wifiOffloadUpload n)
                       (wifiOffloadActive n) (wifiOffloadSsid n)
                       (wifiOffloadRssi n) (wifiOffloadBars n)
                       (ethernetOffloadDownload n) (ethernetOffloadUpload n)
                       (ethernetOffloadActive n) \<rparr>
                in bandwidthStep s2 (totalDownload n) (totalUpload n) bwNow)))"

text \<open>
  \<^verbatim>\<open>refresh\<close>, given what \<^verbatim>\<open>fetchStats\<close> returned (\<^verbatim>\<open>null\<close> after a failure):
  \<^verbatim>\<open>previousStats\<close> is assigned only when \<^verbatim>\<open>displayStats\<close> returned.
\<close>

definition refresh :: "state \<Rightarrow> jsval \<Rightarrow> int \<Rightarrow> int \<Rightarrow> error option \<times> state" where
  "refresh s stats ts bwNow =
     (if truthy stats then
        (case displayStats s stats ts bwNow of
           (None, s') \<Rightarrow> (None, s'\<lparr> previousStats := stats \<rparr>)
         | (Some e, s') \<Rightarrow> (Some e, s'))
      else (None, s))"

text \<open>
  The state in which \<^verbatim>\<open>main\<close> starts polling, from the tables as it finds them: the
  history is seeded from \<^verbatim>\<open>timeseries_data\<close>, or from the legacy table when that gives
  no sample, and \<^verbatim>\<open>cleanOldData(7)\<close> deletes the rows older than seven days.
\<close>

definition startup :: "tsrow list \<Rightarrow> bwrow list \<Rightarrow> int \<Rightarrow> state" where
  "startup tsdb bwdb now =
     (let timeseriesHistory = calculateSpeedsFromTimeseries tsdb maxSamples;
          h = (if length (download timeseriesHistory) > 0
               then (download timeseriesHistory, upload timeseriesHistory)
               else loadBandwidthHistory bwdb maxSamples);
          cutoffTime = now - 7 * 24 * 60 * 60 * 1000
      in \<lparr> timeseries_data = filter (\<lambda>r. \<not> timestamp r < cutoffTime) tsdb,
           bandwidth_history = filter (\<lambda>r. \<not> bw_timestamp r < cutoffTime) bwdb,
           previousStats = JNull,
           historyDownload = fst h,
           historyUpload = snd h \<rparr>)"


section \<open>Notions used to state the properties\<close>

text \<open>
  The value at the end of a path of property names, read leniently: \<^verbatim>\<open>undefined\<close> as
  soon as a step cannot be taken. The theorems below use it to name the fields of a raw
  snapshot; the model of the code above does not.
\<close>

fun lookupPath :: "jsval \<Rightarrow> string list \<Rightarrow> jsval" where
  "lookupPath v [] = v"
| "lookupPath v (k # ks) = (case getProp v k of Inl e \<Rightarrow> JUndefined | Inr x \<Rightarrow> lookupPath x ks)"

text \<open>The six counter fields of a raw snapshot.\<close>

definition counterFields :: "jsval \<Rightarrow> jsval list" where
  "counterFields data =
     [lookupPath data [''wwan'', ''dataTransferredRx''],
      lookupPath data [''wwan'', ''dataTransferredTx''],
      lookupPath data [''wifi'', ''offload'', ''dataTransferred'', ''tx''],
      lookupPath data [''wifi'', ''offload'', ''dataTransferred'', ''rx''],
      lookupPath data [''ethernet'', ''offload'', ''tx''],
      lookupPath data [''ethernet'', ''offload'', ''rx'']]"

text \<open>
  The fields that \<^verbatim>\<open>displayStats\<close> hands to \<^verbatim>\<open>parseInt\<close>: the six counter fields
  and the two lifetime fields.
\<close>

definition parsedFields :: "jsval \<Rightarrow> jsval list" where
  "parsedFields data =
     counterFields data @
     [lookupPath data [''wwan'', ''dataUsage'', ''generic'', ''dataTransferred''],
      lookupPath data [''wwan'', ''dataUsage'', ''generic'', ''dataTransferredRoaming'']]"

text \<open>
  A counter field whose number is below \<open>2^51\<close> in magnitude: three such counters add
  up exactly in double arithmetic, the sum staying below \<open>2^53\<close>.
\<close>

definition safeCounter :: "jsval \<Rightarrow> bool" where
  "safeCounter v = (\<bar>parseIntOr0 v\<bar> < 2 ^ 51)"

text \<open>
  The data bars of the bandwidth panel throw nothing on a snapshot: they print the
  totals that the aggregation gives (and are not reached when that throws).
\<close>

definition dataBarsPrint :: "jsval \<Rightarrow> bool" where
  "dataBarsPrint data =
     (case aggregateTotals data of
        Inl e \<Rightarrow> True
      | Inr (dl, ul) \<Rightarrow> dataBars dl ul = None)"

section \<open>Concrete snapshots and tables\<close>

text \<open>
  A snapshot in which the cellular modem reports \<open>rx = 100\<close>, \<open>tx = 50\<close> and the WiFi
  offload reports \<open>tx = 30\<close>, \<open>rx = 10\<close>, with the objects the guards ask for.
\<close>

definition conventionSnapshot :: jsval where
  "conventionSnapshot =
     JObj [(''general'', JObj []), (''power'', JObj []),
           (''wwan'', JObj [(''dataTransferredRx'', JNum 100), (''dataTransferredTx'', JNum 50),
                           (''dataUsage'', JObj [(''generic'', JObj [])])]),
           (''wifi'', JObj [(''offload'',
              JObj [(''dataTransferred'', JObj [(''tx'', JNum 30), (''rx'', JNum 10)])])])]"

text \<open>A snapshot with all three sources, the counters sent as strings.\<close>

definition threeSourceSnapshot :: jsval where
  "threeSourceSnapshot =
     JObj [(''general'', JObj []), (''power'', JObj []),
           (''wwan'', JObj [(''dataTransferredRx'', JStr ''7000''), (''dataTransferredTx'', JStr ''600''),
                           (''dataUsage'', JObj [(''generic'', JObj [(''dataTransferred'', JStr ''123'')])])]),
           (''wifi'', JObj [(''offload'',
              JObj [(''dataTransferred'', JObj [(''tx'', JStr ''30''), (''rx'', JStr ''10'')])])]),
           (''ethernet'', JObj [(''offload'', JObj [(''tx'', JStr ''4''), (''rx'', JStr ''2'')])])]"

text \<open>A property of a JSON object, left out when its value is given as undefined.\<close>

definition jsonField :: "string \<Rightarrow> jsval \<Rightarrow> (string \<times> jsval) list" where
  "jsonField k v = (if v = JUndefined then [] else [(k, v)])"

text \<open>
  A snapshot as the router sends it while the cellular modem alone carries the traffic,
  with the given counter and lifetime fields (a field given as undefined is left out).
  It has what every panel reads: the model, the up time and the power state of the
  header, the connection, the signal report with 3 bars, the band and the address of
  the network panel, the session duration, and an empty client list.
\<close>

definition cellularSnapshot :: "jsval \<Rightarrow> jsval \<Rightarrow> jsval \<Rightarrow> jsval" where
  "cellularSnapshot rx tx lifetime =
     JObj [(''general'', JObj [(''model'', JStr ''MR1100''), (''upTime'', JNum 3600),
                              (''devTemperature'', JNum 40)]),
           (''power'', JObj [(''PMState'', JStr ''Online'')]),
           (''wwan'', JObj (jsonField ''dataTransferredRx'' rx @ jsonField ''dataTransferredTx'' tx @
                           [(''sessDuration'', JNum 60),
                            (''connection'', JStr ''Connected''),
                            (''connectionText'', JStr ''4G''),
                            (''registerNetworkDisplay'', JStr ''Carrier''),
                            (''IP'', JStr ''10.0.0.2''),
                            (''signalStrength'',
                               JObj [(''rsrp'', JNum (- 95)), (''rsrq'', JNum (- 11)),
                                     (''sinr'', JNum 7), (''bars'', JNum 3)]),
                            (''dataUsage'',
                               JObj [(''generic'', JObj (jsonField ''dataTransferred'' lifetime))])])),
           (''wwanadv'', JObj [(''curBand'', JStr ''LTE B3'')]),
           (''router'', JObj [(''clientList'', JArr [])])]"

text \<open>
  Such a snapshot whose download counter is not a number and whose upload counter is
  missing; and one whose download counter is the string \<^verbatim>\<open>-5\<close>, the upload counter
  missing.
\<close>

definition sparseSnapshot :: jsval where
  "sparseSnapshot = cellularSnapshot (JStr ''n/a'') JUndefined JUndefined"

definition negativeSnapshot :: jsval where
  "negativeSnapshot = cellularSnapshot (JStr ''-5'') JUndefined JUndefined"

text \<open>
  A row of \<^verbatim>\<open>timeseries_data\<close> written for the cellular modem alone, given its two
  aggregate columns.
\<close>

definition cellularRow :: "int \<Rightarrow> int \<Rightarrow> int \<Rightarrow> int option \<Rightarrow> tsrow" where
  "cellularRow ts rxBytes txBytes lifetime =
     \<lparr> timestamp = ts, total_rx_bytes = rxBytes, total_tx_bytes = txBytes,
       session_duration = JNum 60, lifetime_bytes = lifetime,
       signal_rsrp = JNum (- 95), signal_rsrq = JNum (- 11), signal_sinr = JNum 7,
       cellular_download = Some txBytes, cellular_upload = Some rxBytes,
       wifi_offload_download = Some 0, wifi_offload_upload = Some 0,
       wifi_offload_active = Some 0,
       wifi_offload_ssid = JNull, wifi_offload_rssi = JNull, wifi_offload_bars = JNull,
       ethernet_offload_download = Some 0, ethernet_offload_upload = Some 0,
       ethernet_offload_active = Some 0 \<rparr>"

text \<open>The snapshot that normalization gives for the cellular modem alone.\<close>

definition cellularOnly :: "int \<Rightarrow> int \<Rightarrow> int option \<Rightarrow> snapshot" where
  "cellularOnly dl ul lifetime =
     \<lparr> totalDownload = dl, totalUpload = ul, totalLifetimeBytes = lifetime,
       cellularDownload = dl, cellularUpload = ul,
       wifiOffloadDownload = 0, wifiOffloadUpload = 0,
       wifiOffloadActive = JUndefined, wifiOffloadSsid = JNull,
       wifiOffloadRssi = JNull, wifiOffloadBars = JNull,
       ethernetOffloadDownload = 0, ethernetOffloadUpload = 0,
       ethernetOffloadActive = JUndefined \<rparr>"

text \<open>
  A table after a gap was filled: the record at time 0 with lifetime bytes 1000, the
  nine records interpolated up to ten poll intervals, and the record of the poll then.
\<close>

definition gapFilledTable :: "tsrow list" where
  "gapFilledTable =
     [cellularRow 0 200 1000 (Some 1000),
      interpolatedRow 5000 1100, interpolatedRow 10000 1200, interpolatedRow 15000 1300,
      interpolatedRow 20000 1400, interpolatedRow 25000 1500, interpolatedRow 30000 1600,
      interpolatedRow 35000 1700, interpolatedRow 40000 1800, interpolatedRow 45000 1900,
      cellularRow 50000 300 1500 (Some 2000)]"

text \<open>The two arrays of \<^verbatim>\<open>bandwidthHistory\<close> in a state.\<close>

definition historyOf :: "state \<Rightarrow> number list \<times> number list" where
  "historyOf s = (historyDownload s, historyUpload s)"


text \<open>
  Two polls of the cellular modem from empty tables, at the given times, the snapshots
  carrying the given download and upload counters.
\<close>

definition twoPolls :: "int \<Rightarrow> int \<Rightarrow> jsval \<Rightarrow> jsval \<Rightarrow> int \<Rightarrow> jsval \<Rightarrow> jsval \<Rightarrow> state" where
  "twoPolls start t1 rx1 tx1 t2 rx2 tx2 =
     snd (refresh (snd (refresh (startup [] [] start) (cellularSnapshot rx1 tx1 JUndefined) t1 t1))
            (cellularSnapshot rx2 tx2 JUndefined) t2 t2)"

text \<open>
  The state after a first poll, at time 0, with download counter 1000 and upload
  counter 200; and a snapshot that may follow it after a router reset, whose download
  counter is 400.
\<close>

definition afterFirstPoll :: state where
  "afterFirstPoll =
     snd (refresh (startup [] [] 0) (cellularSnapshot (JStr ''1000'') (JStr ''200'') JUndefined) 0 0)"

definition rolloverSnapshot :: jsval where
  "rolloverSnapshot = cellularSnapshot (JStr ''400'') (JStr ''300'') JUndefined"

text \<open>
  The table after this run: the monitor starts on a table whose only record, at time
  0, has lifetime bytes 1000, and at ten poll intervals polls a snapshot with lifetime
  bytes 2000 whose download counter is the string \<^verbatim>\<open>-5\<close> and whose upload counter is
  missing.
\<close>

definition negativeGapTable :: "tsrow list" where
  "negativeGapTable =
     timeseries_data
       (snd (refresh (startup [cellularRow 0 200 1000 (Some 1000)] [] 0)
               (cellularSnapshot (JStr ''-5'') JUndefined (JStr ''2000''))
               (10 * POLL_INTERVAL) (10 * POLL_INTERVAL)))"

text \<open>The differences between consecutive elements of a list.\<close>

fun deltas :: "int list \<Rightarrow> int list" where
  "deltas (x # y # ys) = (y - x) # deltas (y # ys)"
| "deltas xs = []"


section \<open>Properties of normalization\<close>

lemma thenDo_Inr [simp]: "thenDo (Inr x) f = f x"
  by (simp add: thenDo_def)

lemma lookupPath_JUndefined [simp]: "lookupPath JUndefined ks = JUndefined"
  by (cases ks) simp_all

lemma lookupPath_falsy: "\<not> truthy v \<Longrightarrow> lookupPath v (k # ks) = JUndefined"
  by (cases v) simp_all

lemma getProp_truthy: "truthy v \<Longrightarrow> getProp v k = Inr (lookupPath v [k])"
  by (cases v) (simp_all split: option.splits)

lemma lookupPath_step: "lookupPath v (k # ks) = lookupPath (lookupPath v [k]) ks"
  by (cases v) (simp_all split: option.splits)

declare lookupPath.simps [simp del]

lemma andProp_eq: "andProp a k = Inr (if truthy a then lookupPath a [k] else a)"
  by (simp add: andProp_def getProp_truthy)

lemma wifiOffloadCounters_eq:
  "wifiOffloadCounters wo =
     Inr (if truthy (lookupPath wo [''dataTransferred''])
          then (parseIntOr0 (lookupPath wo [''dataTransferred'', ''tx'']),
                parseIntOr0 (lookupPath wo [''dataTransferred'', ''rx'']))
          else (0, 0))"
proof (cases "truthy wo")
  case True
  then show ?thesis
    by (simp add: wifiOffloadCounters_def andProp_eq getProp_truthy lookupPath_step [of wo "''dataTransferred''" "[k]" for k])
next
  case False
  then show ?thesis
    by (simp add: wifiOffloadCounters_def andProp_eq lookupPath_falsy)
qed

lemma ethOffloadCounters_eq:
  "ethOffloadCounters eo =
     Inr (if truthy eo
          then (parseIntOr0 (lookupPath eo [''tx'']), parseIntOr0 (lookupPath eo [''rx'']))
          else (0, 0))"
  by (simp add: ethOffloadCounters_def getProp_truthy)

text \<open>
  The offload object is truthy exactly when the path leads to a truthy value, and is
  that value then.
\<close>

lemma offloadOf_cases:
  assumes "truthy data"
  obtains wo where "thenDo (getProp data k) (\<lambda>w. andProp w ''offload'') = Inr wo"
    and "truthy wo \<longleftrightarrow> truthy (lookupPath data [k, ''offload''])"
    and "truthy wo \<Longrightarrow> wo = lookupPath data [k, ''offload'']"
proof -
  let ?w = "lookupPath data [k]"
  let ?wo = "if truthy ?w then lookupPath ?w [''offload''] else ?w"
  have 1: "thenDo (getProp data k) (\<lambda>w. andProp w ''offload'') = Inr ?wo"
    using assms by (simp add: getProp_truthy andProp_eq)
  have 2: "lookupPath data [k, ''offload''] = lookupPath ?w [''offload'']"
    by (rule lookupPath_step)
  have 3: "truthy ?wo \<longleftrightarrow> truthy (lookupPath data [k, ''offload''])"
    by (simp add: 2 lookupPath_falsy)
  have 4: "truthy ?wo \<Longrightarrow> ?wo = lookupPath data [k, ''offload'']"
    by (simp add: 2 split: if_splits)
  from 1 3 4 show thesis by (rule that)
qed


lemma lookupPath_append: "lookupPath v (ks @ ks') = lookupPath (lookupPath v ks) ks'"
proof (induction ks arbitrary: v)
  case Nil
  show ?case by (simp add: lookupPath.simps)
next
  case (Cons k ks)
  show ?case
    by (cases "getProp v k") (simp_all add: lookupPath.simps Cons.IH)
qed

lemma lookupPath_via:
  assumes "truthy wo \<longleftrightarrow> truthy (lookupPath data p)"
    and "truthy wo \<Longrightarrow> wo = lookupPath data p"
  shows "lookupPath wo (k # ks) = lookupPath data (p @ k # ks)"
proof (cases "truthy wo")
  case True
  with assms(2) show ?thesis by (simp add: lookupPath_append)
next
  case False
  with assms(1) show ?thesis by (simp add: lookupPath_append lookupPath_falsy)
qed

lemma wifiActiveOf_total:
  obtains a where "wifiActiveOf wo = Inr a" and "truthy a \<Longrightarrow> truthy wo"
proof -
  have "\<exists>a. wifiActiveOf wo = Inr a \<and> (truthy a \<longrightarrow> truthy wo)"
    by (simp add: wifiActiveOf_def getProp_truthy)
  then show thesis using that by blast
qed

lemma ethActiveOf_total:
  obtains a where "ethActiveOf eo = Inr a" and "truthy a \<Longrightarrow> truthy eo"
proof -
  have "\<exists>a. ethActiveOf eo = Inr a \<and> (truthy a \<longrightarrow> truthy eo)"
    by (simp add: ethActiveOf_def getProp_truthy)
  then show thesis using that by blast
qed

lemma truthyProp_iff: "truthyProp v k \<longleftrightarrow> truthy (lookupPath v [k])"
proof (cases "truthy v")
  case True
  then show ?thesis by (simp add: truthyProp_def getProp_truthy)
next
  case False
  then show ?thesis by (simp add: truthyProp_def lookupPath_falsy)
qed

lemma validData_wwan:
  assumes "validData data"
  shows "truthy data" and "truthy (lookupPath data [''wwan''])"
    and "getProp data ''wwan'' = Inr (lookupPath data [''wwan''])"
  using assms by (simp_all add: validData_def truthyProp_iff getProp_truthy)

lemma hasDataUsage_generic:
  assumes "validData data" and "hasDataUsage data"
  shows "truthy (lookupPath data [''wwan'', ''dataUsage''])"
    and "truthy (lookupPath data [''wwan'', ''dataUsage'', ''generic''])"
proof -
  let ?wwan = "lookupPath data [''wwan'']"
  let ?du = "lookupPath ?wwan [''dataUsage'']"
  have w: "truthy ?wwan" "getProp data ''wwan'' = Inr ?wwan"
    using assms(1) by (rule validData_wwan)+
  from assms(2) w have du: "truthy ?du"
    by (simp add: hasDataUsage_def truthyProp_iff)
  with assms(2) w have g: "truthy (lookupPath ?du [''generic''])"
    by (simp add: hasDataUsage_def truthyProp_iff getProp_truthy)
  have p1: "lookupPath data [''wwan'', ''dataUsage''] = ?du"
    by (rule lookupPath_step)
  have p2: "lookupPath data [''wwan'', ''dataUsage'', ''generic''] = lookupPath ?du [''generic'']"
    using lookupPath_append [of data "[''wwan'', ''dataUsage'']" "[''generic'']"] by (simp add: p1)
  show "truthy (lookupPath data [''wwan'', ''dataUsage''])" using du p1 by simp
  show "truthy (lookupPath data [''wwan'', ''dataUsage'', ''generic''])" using g p2 by simp
qed

lemma lifetimeOf_total:
  assumes "validData data" and "hasDataUsage data"
  shows "\<exists>l. lifetimeOf data = Inr l"
proof -
  let ?wwan = "lookupPath data [''wwan'']"
  let ?du = "lookupPath ?wwan [''dataUsage'']"
  let ?g = "lookupPath ?du [''generic'']"
  have w: "truthy ?wwan" "getProp data ''wwan'' = Inr ?wwan"
    using assms(1) by (rule validData_wwan)+
  have "lookupPath data [''wwan'', ''dataUsage''] = ?du"
    by (rule lookupPath_step)
  then have du: "truthy ?du"
    using hasDataUsage_generic(1) [OF assms] by simp
  have "lookupPath data [''wwan'', ''dataUsage'', ''generic''] = ?g"
    using lookupPath_append [of data "[''wwan'']" "[''dataUsage'', ''generic'']"]
          lookupPath_step [of ?wwan "''dataUsage''" "[''generic'']"] by simp
  then have g: "truthy ?g"
    using hasDataUsage_generic(2) [OF assms] by simp
  show ?thesis
    using w du g by (simp add: lifetimeOf_def getProp_truthy)
qed


lemma normalize_closed_form:
  assumes "validData data" and "hasDataUsage data"
  obtains n where "normalize data = Inr n"
    and "cellularDownload n = parseIntOr0 (lookupPath data [''wwan'', ''dataTransferredRx''])"
    and "cellularUpload n = parseIntOr0 (lookupPath data [''wwan'', ''dataTransferredTx''])"
    and "wifiOffloadDownload n =
           (if truthy (lookupPath data [''wifi'', ''offload'', ''dataTransferred''])
            then parseIntOr0 (lookupPath data [''wifi'', ''offload'', ''dataTransferred'', ''tx''])
            else 0)"
    and "wifiOffloadUpload n =
           (if truthy (lookupPath data [''wifi'', ''offload'', ''dataTransferred''])
            then parseIntOr0 (lookupPath data [''wifi'', ''offload'', ''dataTransferred'', ''rx''])
            else 0)"
    and "ethernetOffloadDownload n =
           (if truthy (lookupPath data [''ethernet'', ''offload''])
            then parseIntOr0 (lookupPath data [''ethernet'', ''offload'', ''tx''])
            else 0)"
    and "ethernetOffloadUpload n =
           (if truthy (lookupPath data [''ethernet'', ''offload''])
            then parseIntOr0 (lookupPath data [''ethernet'', ''offload'', ''rx''])
            else 0)"
    and "totalDownload n = cellularDownload n + wifiOffloadDownload n + ethernetOffloadDownload n"
    and "totalUpload n = cellularUpload n + wifiOffloadUpload n + ethernetOffloadUpload n"
    and "truthy (wifiOffloadActive n) \<Longrightarrow> truthy (lookupPath data [''wifi'', ''offload''])"
    and "truthy (ethernetOffloadActive n) \<Longrightarrow> truthy (lookupPath data [''ethernet'', ''offload''])"
proof -
  let ?wwan = "lookupPath data [''wwan'']"
  have d: "truthy data" and w: "truthy ?wwan" and gw: "getProp data ''wwan'' = Inr ?wwan"
    using assms(1) by (rule validData_wwan)+
  have crx: "getProp ?wwan ''dataTransferredRx'' = Inr (lookupPath data [''wwan'', ''dataTransferredRx''])"
    using w lookupPath_step [of data "''wwan''" "[''dataTransferredRx'']"] by (simp add: getProp_truthy)
  have ctx: "getProp ?wwan ''dataTransferredTx'' = Inr (lookupPath data [''wwan'', ''dataTransferredTx''])"
    using w lookupPath_step [of data "''wwan''" "[''dataTransferredTx'']"] by (simp add: getProp_truthy)
  obtain wo where wo: "wifiOffloadOf data = Inr wo"
    and wo_t: "truthy wo \<longleftrightarrow> truthy (lookupPath data [''wifi'', ''offload''])"
    and wo_v: "truthy wo \<Longrightarrow> wo = lookupPath data [''wifi'', ''offload'']"
    using offloadOf_cases [OF d, of "''wifi''"] unfolding wifiOffloadOf_def by metis
  obtain eo where eo: "ethOffloadOf data = Inr eo"
    and eo_t: "truthy eo \<longleftrightarrow> truthy (lookupPath data [''ethernet'', ''offload''])"
    and eo_v: "truthy eo \<Longrightarrow> eo = lookupPath data [''ethernet'', ''offload'']"
    using offloadOf_cases [OF d, of "''ethernet''"] unfolding ethOffloadOf_def by metis
  have wpath: "lookupPath wo (k # ks) = lookupPath data ([''wifi'', ''offload''] @ k # ks)" for k ks
    using wo_t wo_v by (rule lookupPath_via)
  have epath: "lookupPath eo (k # ks) = lookupPath data ([''ethernet'', ''offload''] @ k # ks)" for k ks
    using eo_t eo_v by (rule lookupPath_via)
  let ?wc = "if truthy (lookupPath data [''wifi'', ''offload'', ''dataTransferred''])
             then (parseIntOr0 (lookupPath data [''wifi'', ''offload'', ''dataTransferred'', ''tx'']),
                   parseIntOr0 (lookupPath data [''wifi'', ''offload'', ''dataTransferred'', ''rx'']))
             else (0, 0)"
  let ?ec = "if truthy (lookupPath data [''ethernet'', ''offload''])
             then (parseIntOr0 (lookupPath data [''ethernet'', ''offload'', ''tx'']),
                   parseIntOr0 (lookupPath data [''ethernet'', ''offload'', ''rx'']))
             else (0, 0)"
  have wc: "wifiOffloadCounters wo = Inr ?wc"
    by (simp add: wifiOffloadCounters_eq wpath)
  have ec: "ethOffloadCounters eo = Inr ?ec"
    by (simp add: ethOffloadCounters_eq epath eo_t)
  obtain wa where wa: "wifiActiveOf wo = Inr wa" and wa_t: "truthy wa \<Longrightarrow> truthy wo"
    using wifiActiveOf_total [of wo] by metis
  obtain ea where ea: "ethActiveOf eo = Inr ea" and ea_t: "truthy ea \<Longrightarrow> truthy eo"
    using ethActiveOf_total [of eo] by metis
  obtain l where l: "lifetimeOf data = Inr l"
    using lifetimeOf_total [OF assms] by blast
  let ?dl = "parseIntOr0 (lookupPath data [''wwan'', ''dataTransferredRx'']) + fst ?wc + fst ?ec"
  let ?ul = "parseIntOr0 (lookupPath data [''wwan'', ''dataTransferredTx'']) + snd ?wc + snd ?ec"
  have agg: "aggregateTotals data = Inr (?dl, ?ul)"
    by (simp add: aggregateTotals_def gw crx ctx wo wc eo ec)
  let ?ssid = "if truthy wa then lookupPath wo [''connectionSsid''] else JNull"
  let ?rssi = "if truthy wa then orElse (lookupPath wo [''rssi'']) JNull else JNull"
  let ?bars = "if truthy wa then orElse (lookupPath wo [''bars'']) JNull else JNull"
  let ?n = "\<lparr> totalDownload = ?dl, totalUpload = ?ul, totalLifetimeBytes = l,
             cellularDownload = parseIntOr0 (lookupPath data [''wwan'', ''dataTransferredRx'']),
             cellularUpload = parseIntOr0 (lookupPath data [''wwan'', ''dataTransferredTx'']),
             wifiOffloadDownload = fst ?wc, wifiOffloadUpload = snd ?wc,
             wifiOffloadActive = wa, wifiOffloadSsid = ?ssid,
             wifiOffloadRssi = ?rssi, wifiOffloadBars = ?bars,
             ethernetOffloadDownload = fst ?ec, ethernetOffloadUpload = snd ?ec,
             ethernetOffloadActive = ea \<rparr>"
  have s1: "(if truthy wa then getProp wo ''connectionSsid'' else Inr JNull) = Inr ?ssid"
    using wa_t by (simp add: getProp_truthy)
  have s2: "(if truthy wa then thenDo (getProp wo ''rssi'') (\<lambda>r. Inr (orElse r JNull)) else Inr JNull) = Inr ?rssi"
    using wa_t by (simp add: getProp_truthy)
  have s3: "(if truthy wa then thenDo (getProp wo ''bars'') (\<lambda>b. Inr (orElse b JNull)) else Inr JNull) = Inr ?bars"
    using wa_t by (simp add: getProp_truthy)
  have n: "normalize data = Inr ?n"
    unfolding normalize_def
    by (simp only: agg l gw crx ctx wo wc wa s1 s2 s3 eo ec ea thenDo_Inr prod.case) (simp split: if_splits)
  show thesis
  proof (rule that [OF n])
    show "truthy (wifiOffloadActive ?n) \<Longrightarrow> truthy (lookupPath data [''wifi'', ''offload''])"
      using wa_t wo_t by simp
    show "truthy (ethernetOffloadActive ?n) \<Longrightarrow> truthy (lookupPath data [''ethernet'', ''offload''])"
      using ea_t eo_t by simp
  qed simp_all
qed

lemmas normalize_defs =
  normalize_def aggregateTotals_def lifetimeOf_def wifiOffloadOf_def ethOffloadOf_def
  wifiOffloadCounters_def ethOffloadCounters_def wifiActiveOf_def ethActiveOf_def
  andProp_def orElse_def

lemmas guard_defs = validData_def hasDataUsage_def truthyProp_def

lemma parseIntOr0_None: "parseInt v = None \<Longrightarrow> parseIntOr0 v = 0"
  by (simp add: parseIntOr0_def)

lemma parseIntOr0_nonneg:
  assumes "\<forall>k. parseInt v = Some k \<longrightarrow> 0 \<le> k"
  shows "0 \<le> parseIntOr0 v"
  using assms by (cases "parseInt v") (simp_all add: parseIntOr0_def)

lemma parse_numbers:
  "parseIntOr0 (JNum 100) = 100" "parseIntOr0 (JNum 50) = 50"
  "parseIntOr0 (JNum 30) = 30" "parseIntOr0 (JNum 10) = 10"
  "parseInt (JNum 0) = Some 0"
  by code_simp+

lemma parse_strings:
  "parseIntOr0 (JStr ''7000'') = 7000" "parseIntOr0 (JStr ''600'') = 600"
  "parseIntOr0 (JStr ''30'') = 30" "parseIntOr0 (JStr ''10'') = 10"
  "parseIntOr0 (JStr ''4'') = 4" "parseIntOr0 (JStr ''2'') = 2"
  "parseIntOr0 (JStr ''-5'') = - 5" "parseIntOr0 (JStr ''50'') = 50"
  "parseInt (JStr ''n/a'') = None" "parseInt JUndefined = None"
  by code_simp+

text \<open>
  Claim C2. For every raw snapshot that \<^verbatim>\<open>displayStats\<close> goes on to normalize (one
  that passes its two guards), normalization maps the cellular \<open>rx\<close> counter to
  download and \<open>tx\<close> to upload, and maps the \<open>tx\<close> counter of each offload source to
  download and its \<open>rx\<close> counter to upload; the aggregates are the sums over the three
  sources. For the
  snapshot with cellular \<open>rx = 100\<close>, \<open>tx = 50\<close> and WiFi offload \<open>tx = 30\<close>, \<open>rx = 10\<close>
  the result has cellular download 100 and upload 50, WiFi download 30 and upload 10,
  and aggregate download 130 and upload 60.
\<close>

theorem convention_conversion:
  "(\<forall>data. validData data \<and> hasDataUsage data \<longrightarrow>
      (\<exists>n. normalize data = Inr n
         \<and> cellularDownload n = parseIntOr0 (lookupPath data [''wwan'', ''dataTransferredRx''])
         \<and> cellularUpload n = parseIntOr0 (lookupPath data [''wwan'', ''dataTransferredTx''])
         \<and> wifiOffloadDownload n =
             (if truthy (lookupPath data [''wifi'', ''offload'', ''dataTransferred''])
              then parseIntOr0 (lookupPath data [''wifi'', ''offload'', ''dataTransferred'', ''tx''])
              else 0)
         \<and> wifiOffloadUpload n =
             (if truthy (lookupPath data [''wifi'', ''offload'', ''dataTransferred''])
              then parseIntOr0 (lookupPath data [''wifi'', ''offload'', ''dataTransferred'', ''rx''])
              else 0)
         \<and> ethernetOffloadDownload n =
             (if truthy (lookupPath data [''ethernet'', ''offload''])
              then parseIntOr0 (lookupPath data [''ethernet'', ''offload'', ''tx''])
              else 0)
         \<and> ethernetOffloadUpload n =
             (if truthy (lookupPath data [''ethernet'', ''offload''])
              then parseIntOr0 (lookupPath data [''ethernet'', ''offload'', ''rx''])
              else 0)
         \<and> totalDownload n = cellularDownload n + wifiOffloadDownload n + ethernetOffloadDownload n
         \<and> totalUpload n = cellularUpload n + wifiOffloadUpload n + ethernetOffloadUpload n))
   \<and> validData conventionSnapshot \<and> hasDataUsage conventionSnapshot
   \<and> normalize conventionSnapshot =
       Inr \<lparr> totalDownload = 130, totalUpload = 60, totalLifetimeBytes = Some 0,
             cellularDownload = 100, cellularUpload = 50,
             wifiOffloadDownload = 30, wifiOffloadUpload = 10,
             wifiOffloadActive = JUndefined, wifiOffloadSsid = JNull,
             wifiOffloadRssi = JNull, wifiOffloadBars = JNull,
             ethernetOffloadDownload = 0, ethernetOffloadUpload = 0,
             ethernetOffloadActive = JUndefined \<rparr>"
proof (intro conjI allI impI)
  fix data
  assume g: "validData data \<and> hasDataUsage data"
  then have v: "validData data" and h: "hasDataUsage data" by simp_all
  from v h show "\<exists>n. normalize data = Inr n
         \<and> cellularDownload n = parseIntOr0 (lookupPath data [''wwan'', ''dataTransferredRx''])
         \<and> cellularUpload n = parseIntOr0 (lookupPath data [''wwan'', ''dataTransferredTx''])
         \<and> wifiOffloadDownload n =
             (if truthy (lookupPath data [''wifi'', ''offload'', ''dataTransferred''])
              then parseIntOr0 (lookupPath data [''wifi'', ''offload'', ''dataTransferred'', ''tx''])
              else 0)
         \<and> wifiOffloadUpload n =
             (if truthy (lookupPath data [''wifi'', ''offload'', ''dataTransferred''])
              then parseIntOr0 (lookupPath data [''wifi'', ''offload'', ''dataTransferred'', ''rx''])
              else 0)
         \<and> ethernetOffloadDownload n =
             (if truthy (lookupPath data [''ethernet'', ''offload''])
              then parseIntOr0 (lookupPath data [''ethernet'', ''offload'', ''tx''])
              else 0)
         \<and> ethernetOffloadUpload n =
             (if truthy (lookupPath data [''ethernet'', ''offload''])
              then parseIntOr0 (lookupPath data [''ethernet'', ''offload'', ''rx''])
              else 0)
         \<and> totalDownload n = cellularDownload n + wifiOffloadDownload n + ethernetOffloadDownload n
         \<and> totalUpload n = cellularUpload n + wifiOffloadUpload n + ethernetOffloadUpload n"
    by (rule normalize_closed_form) (intro exI conjI; assumption)
next
  show "validData conventionSnapshot"
    by (simp add: guard_defs conventionSnapshot_def)
  show "hasDataUsage conventionSnapshot"
    by (simp add: guard_defs conventionSnapshot_def)
  show "normalize conventionSnapshot =
       Inr \<lparr> totalDownload = 130, totalUpload = 60, totalLifetimeBytes = Some 0,
             cellularDownload = 100, cellularUpload = 50,
             wifiOffloadDownload = 30, wifiOffloadUpload = 10,
             wifiOffloadActive = JUndefined, wifiOffloadSsid = JNull,
             wifiOffloadRssi = JNull, wifiOffloadBars = JNull,
             ethernetOffloadDownload = 0, ethernetOffloadUpload = 0,
             ethernetOffloadActive = JUndefined \<rparr>"
    by (simp add: normalize_defs conventionSnapshot_def parse_numbers)
qed

theorem convention_conversion_witness:
  "validData threeSourceSnapshot \<and> hasDataUsage threeSourceSnapshot
   \<and> (\<exists>n. normalize threeSourceSnapshot = Inr n
        \<and> cellularDownload n = 7000 \<and> cellularUpload n = 600
        \<and> wifiOffloadDownload n = 30 \<and> wifiOffloadUpload n = 10
        \<and> ethernetOffloadDownload n = 4 \<and> ethernetOffloadUpload n = 2
        \<and> totalDownload n = 7034 \<and> totalUpload n = 612)"
proof -
  have g: "validData threeSourceSnapshot \<and> hasDataUsage threeSourceSnapshot"
    by (simp add: guard_defs threeSourceSnapshot_def)
  have paths:
    "lookupPath threeSourceSnapshot [''wwan'', ''dataTransferredRx''] = JStr ''7000''"
    "lookupPath threeSourceSnapshot [''wwan'', ''dataTransferredTx''] = JStr ''600''"
    "truthy (lookupPath threeSourceSnapshot [''wifi'', ''offload'', ''dataTransferred''])"
    "lookupPath threeSourceSnapshot [''wifi'', ''offload'', ''dataTransferred'', ''tx''] = JStr ''30''"
    "lookupPath threeSourceSnapshot [''wifi'', ''offload'', ''dataTransferred'', ''rx''] = JStr ''10''"
    "truthy (lookupPath threeSourceSnapshot [''ethernet'', ''offload''])"
    "lookupPath threeSourceSnapshot [''ethernet'', ''offload'', ''tx''] = JStr ''4''"
    "lookupPath threeSourceSnapshot [''ethernet'', ''offload'', ''rx''] = JStr ''2''"
    by (simp_all add: lookupPath.simps threeSourceSnapshot_def)
  note general = convention_conversion [THEN conjunct1, THEN spec, THEN mp, OF g]
  have "\<exists>n. normalize threeSourceSnapshot = Inr n
        \<and> cellularDownload n = 7000 \<and> cellularUpload n = 600
        \<and> wifiOffloadDownload n = 30 \<and> wifiOffloadUpload n = 10
        \<and> ethernetOffloadDownload n = 4 \<and> ethernetOffloadUpload n = 2
        \<and> totalDownload n = cellularDownload n + wifiOffloadDownload n + ethernetOffloadDownload n
        \<and> totalUpload n = cellularUpload n + wifiOffloadUpload n + ethernetOffloadUpload n"
    using general by (simp only: paths parse_strings if_True)
  then obtain n where n: "normalize threeSourceSnapshot = Inr n"
    and cd: "cellularDownload n = 7000" and cu: "cellularUpload n = 600"
    and wd: "wifiOffloadDownload n = 30" and wu: "wifiOffloadUpload n = 10"
    and ed: "ethernetOffloadDownload n = 4" and eu: "ethernetOffloadUpload n = 2"
    and td: "totalDownload n = cellularDownload n + wifiOffloadDownload n + ethernetOffloadDownload n"
    and tu: "totalUpload n = cellularUpload n + wifiOffloadUpload n + ethernetOffloadUpload n"
    by (elim exE conjE)
  have "totalDownload n = 7034" and "totalUpload n = 612"
    by (simp_all add: td tu cd cu wd wu ed eu)
  with g n cd cu wd wu ed eu show ?thesis by (intro conjI exI [of _ n]) simp_all
qed

lemma lookupPath_absent:
  assumes "\<not> truthy (lookupPath data p)"
  shows "lookupPath data (p @ k # ks) = JUndefined"
  using assms by (simp add: lookupPath_append lookupPath_falsy)

lemma normalize_closed_form_ex:
  assumes "validData data" and "hasDataUsage data"
  shows "\<exists>n. (normalize data = Inr n)
    \<and> (cellularDownload n = parseIntOr0 (lookupPath data [''wwan'', ''dataTransferredRx'']))
    \<and> (cellularUpload n = parseIntOr0 (lookupPath data [''wwan'', ''dataTransferredTx'']))
    \<and> (wifiOffloadDownload n =
           (if truthy (lookupPath data [''wifi'', ''offload'', ''dataTransferred''])
            then parseIntOr0 (lookupPath data [''wifi'', ''offload'', ''dataTransferred'', ''tx''])
            else 0))
    \<and> (wifiOffloadUpload n =
           (if truthy (lookupPath data [''wifi'', ''offload'', ''dataTransferred''])
            then parseIntOr0 (lookupPath data [''wifi'', ''offload'', ''dataTransferred'', ''rx''])
            else 0))
    \<and> (ethernetOffloadDownload n =
           (if truthy (lookupPath data [''ethernet'', ''offload''])
            then parseIntOr0 (lookupPath data [''ethernet'', ''offload'', ''tx''])
            else 0))
    \<and> (ethernetOffloadUpload n =
           (if truthy (lookupPath data [''ethernet'', ''offload''])
            then parseIntOr0 (lookupPath data [''ethernet'', ''offload'', ''rx''])
            else 0))
    \<and> (totalDownload n = cellularDownload n + wifiOffloadDownload n + ethernetOffloadDownload n)
    \<and> (totalUpload n = cellularUpload n + wifiOffloadUpload n + ethernetOffloadUpload n)
    \<and> (truthy (wifiOffloadActive n) \<longrightarrow> truthy (lookupPath data [''wifi'', ''offload'']))
    \<and> (truthy (ethernetOffloadActive n) \<longrightarrow> truthy (lookupPath data [''ethernet'', ''offload'']))"
  using assms by (rule normalize_closed_form) (intro exI conjI impI; assumption)

lemma normalize_totals:
  assumes "normalize data = Inr n"
  shows "aggregateTotals data = Inr (totalDownload n, totalUpload n)"
proof (cases "aggregateTotals data")
  case (Inl e)
  with assms show ?thesis by (simp add: normalize_def thenDo_def)
next
  case (Inr p)
  obtain dl ul where p: "p = (dl, ul)" by (cases p)
  from assms have "totalDownload n = dl \<and> totalUpload n = ul"
    unfolding normalize_def Inr p
    by (auto simp: thenDo_def split: sum.splits prod.splits if_splits)
  with Inr p show ?thesis by simp
qed

lemma safeCounter_sum:
  assumes "\<bar>a\<bar> < 2 ^ 51" and "\<bar>b\<bar> < 2 ^ 51" and "\<bar>c\<bar> < 2 ^ 51"
  shows "\<bar>a + b + c :: int\<bar> < 2 ^ 53"
  using assms by simp

lemma dataBars_nonpos: "downloadBytes + uploadBytes \<le> 0 \<Longrightarrow> dataBars downloadBytes uploadBytes = None"
  by (simp add: dataBars_def createDataBar_def)

text \<open>
  Claim C7, as amended. Take a raw snapshot that passes the two guards of
  \<^verbatim>\<open>displayStats\<close>, whose counter and lifetime fields have a string (on the others
  \<^verbatim>\<open>parseInt\<close> throws a TypeError), whose counter fields parse below \<open>2^51\<close> in
  magnitude, and whose totals the data bars of the bandwidth panel can show (they throw
  a RangeError, between the aggregation and the per-source breakdown, on a negative
  total beside a positive sum). On it normalization returns a snapshot and throws
  nothing: the aggregation returns the two totals, the data bars print them, and the
  breakdown returns the per-source counters. An offload object that is absent
  contributes 0 to both directions and is inactive, a counter field that is missing or
  does not parse counts as 0, and each aggregate is the exact sum of the three
  per-source counters, below \<open>2^53\<close> in magnitude. The counters are non-negative when
  no counter field parses to a negative number.
\<close>

theorem lenient_parsing_total:
  assumes "validData data" and "hasDataUsage data"
    and "list_all stringifies (parsedFields data)"
    and "list_all safeCounter (counterFields data)"
    and "dataBarsPrint data"
  shows "\<exists>n. normalize data = Inr n
    \<and> aggregateTotals data = Inr (totalDownload n, totalUpload n)
    \<and> dataBars (totalDownload n) (totalUpload n) = None
    \<and> (\<not> truthy (lookupPath data [''wifi'', ''offload'']) \<longrightarrow>
         wifiOffloadDownload n = 0 \<and> wifiOffloadUpload n = 0 \<and> \<not> truthy (wifiOffloadActive n))
    \<and> (\<not> truthy (lookupPath data [''ethernet'', ''offload'']) \<longrightarrow>
         ethernetOffloadDownload n = 0 \<and> ethernetOffloadUpload n = 0
         \<and> \<not> truthy (ethernetOffloadActive n))
    \<and> (parseInt (lookupPath data [''wwan'', ''dataTransferredRx'']) = None \<longrightarrow> cellularDownload n = 0)
    \<and> (parseInt (lookupPath data [''wwan'', ''dataTransferredTx'']) = None \<longrightarrow> cellularUpload n = 0)
    \<and> (parseInt (lookupPath data [''wifi'', ''offload'', ''dataTransferred'', ''tx'']) = None \<longrightarrow>
         wifiOffloadDownload n = 0)
    \<and> (parseInt (lookupPath data [''wifi'', ''offload'', ''dataTransferred'', ''rx'']) = None \<longrightarrow>
         wifiOffloadUpload n = 0)
    \<and> (parseInt (lookupPath data [''ethernet'', ''offload'', ''tx'']) = None \<longrightarrow>
         ethernetOffloadDownload n = 0)
    \<and> (parseInt (lookupPath data [''ethernet'', ''offload'', ''rx'']) = None \<longrightarrow>
         ethernetOffloadUpload n = 0)
    \<and> totalDownload n = cellularDownload n + wifiOffloadDownload n + ethernetOffloadDownload n
    \<and> totalUpload n = cellularUpload n + wifiOffloadUpload n + ethernetOffloadUpload n
    \<and> \<bar>totalDownload n\<bar> < 2 ^ 53 \<and> \<bar>totalUpload n\<bar> < 2 ^ 53
    \<and> ((\<forall>v \<in> set (counterFields data). \<forall>k. parseInt v = Some k \<longrightarrow> 0 \<le> k) \<longrightarrow>
         0 \<le> cellularDownload n \<and> 0 \<le> cellularUpload n
         \<and> 0 \<le> wifiOffloadDownload n \<and> 0 \<le> wifiOffloadUpload n
         \<and> 0 \<le> ethernetOffloadDownload n \<and> 0 \<le> ethernetOffloadUpload n
         \<and> 0 \<le> totalDownload n \<and> 0 \<le> totalUpload n)"
proof -
  from normalize_closed_form_ex [OF assms(1,2)] obtain n where n: "normalize data = Inr n"
    and cd: "cellularDownload n = parseIntOr0 (lookupPath data [''wwan'', ''dataTransferredRx''])"
    and cu: "cellularUpload n = parseIntOr0 (lookupPath data [''wwan'', ''dataTransferredTx''])"
    and wd: "wifiOffloadDownload n =
           (if truthy (lookupPath data [''wifi'', ''offload'', ''dataTransferred''])
            then parseIntOr0 (lookupPath data [''wifi'', ''offload'', ''dataTransferred'', ''tx''])
            else 0)"
    and wu: "wifiOffloadUpload n =
           (if truthy (lookupPath data [''wifi'', ''offload'', ''dataTransferred''])
            then parseIntOr0 (lookupPath data [''wifi'', ''offload'', ''dataTransferred'', ''rx''])
            else 0)"
    and ed: "ethernetOffloadDownload n =
           (if truthy (lookupPath data [''ethernet'', ''offload''])
            then parseIntOr0 (lookupPath data [''ethernet'', ''offload'', ''tx''])
            else 0)"
    and eu: "ethernetOffloadUpload n =
           (if truthy (lookupPath data [''ethernet'', ''offload''])
            then parseIntOr0 (lookupPath data [''ethernet'', ''offload'', ''rx''])
            else 0)"
    and td: "totalDownload n = cellularDownload n + wifiOffloadDownload n + ethernetOffloadDownload n"
    and tu: "totalUpload n = cellularUpload n + wifiOffloadUpload n + ethernetOffloadUpload n"
    and wa: "truthy (wifiOffloadActive n) \<longrightarrow> truthy (lookupPath data [''wifi'', ''offload''])"
    and ea: "truthy (ethernetOffloadActive n) \<longrightarrow> truthy (lookupPath data [''ethernet'', ''offload''])"
    by (elim exE conjE)
  have tot1: "aggregateTotals data = Inr (totalDownload n, totalUpload n)"
    using n by (rule normalize_totals)
  have tot2: "dataBars (totalDownload n) (totalUpload n) = None"
    using assms(5) by (simp add: dataBarsPrint_def tot1)
  have wifi_absent: "wifiOffloadDownload n = 0 \<and> wifiOffloadUpload n = 0 \<and> \<not> truthy (wifiOffloadActive n)"
    if a: "\<not> truthy (lookupPath data [''wifi'', ''offload''])"
  proof -
    have "lookupPath data ([''wifi'', ''offload''] @ ''dataTransferred'' # []) = JUndefined"
      using a by (rule lookupPath_absent)
    then have "\<not> truthy (lookupPath data [''wifi'', ''offload'', ''dataTransferred''])" by simp
    with wd wu wa a show ?thesis by auto
  qed
  have eth_absent: "ethernetOffloadDownload n = 0 \<and> ethernetOffloadUpload n = 0
      \<and> \<not> truthy (ethernetOffloadActive n)"
    if a: "\<not> truthy (lookupPath data [''ethernet'', ''offload''])"
    using ed eu ea a by auto
  have unparsable:
    "parseInt (lookupPath data [''wwan'', ''dataTransferredRx'']) = None \<longrightarrow> cellularDownload n = 0"
    "parseInt (lookupPath data [''wwan'', ''dataTransferredTx'']) = None \<longrightarrow> cellularUpload n = 0"
    "parseInt (lookupPath data [''wifi'', ''offload'', ''dataTransferred'', ''tx'']) = None \<longrightarrow>
       wifiOffloadDownload n = 0"
    "parseInt (lookupPath data [''wifi'', ''offload'', ''dataTransferred'', ''rx'']) = None \<longrightarrow>
       wifiOffloadUpload n = 0"
    "parseInt (lookupPath data [''ethernet'', ''offload'', ''tx'']) = None \<longrightarrow>
       ethernetOffloadDownload n = 0"
    "parseInt (lookupPath data [''ethernet'', ''offload'', ''rx'']) = None \<longrightarrow>
       ethernetOffloadUpload n = 0"
    by (simp_all add: cd cu wd wu ed eu parseIntOr0_None)
  have safe: "\<bar>totalDownload n\<bar> < 2 ^ 53 \<and> \<bar>totalUpload n\<bar> < 2 ^ 53"
  proof -
    from assms(4) have f:
      "\<bar>parseIntOr0 (lookupPath data [''wwan'', ''dataTransferredRx''])\<bar> < 2 ^ 51"
      "\<bar>parseIntOr0 (lookupPath data [''wwan'', ''dataTransferredTx''])\<bar> < 2 ^ 51"
      "\<bar>parseIntOr0 (lookupPath data [''wifi'', ''offload'', ''dataTransferred'', ''tx''])\<bar> < 2 ^ 51"
      "\<bar>parseIntOr0 (lookupPath data [''wifi'', ''offload'', ''dataTransferred'', ''rx''])\<bar> < 2 ^ 51"
      "\<bar>parseIntOr0 (lookupPath data [''ethernet'', ''offload'', ''tx''])\<bar> < 2 ^ 51"
      "\<bar>parseIntOr0 (lookupPath data [''ethernet'', ''offload'', ''rx''])\<bar> < 2 ^ 51"
      by (simp_all add: counterFields_def safeCounter_def)
    have p: "\<bar>cellularDownload n\<bar> < 2 ^ 51" "\<bar>cellularUpload n\<bar> < 2 ^ 51"
      "\<bar>wifiOffloadDownload n\<bar> < 2 ^ 51" "\<bar>wifiOffloadUpload n\<bar> < 2 ^ 51"
      "\<bar>ethernetOffloadDownload n\<bar> < 2 ^ 51" "\<bar>ethernetOffloadUpload n\<bar> < 2 ^ 51"
      using f by (simp_all add: cd cu wd wu ed eu)
    from safeCounter_sum [OF p(1) p(3) p(5)] safeCounter_sum [OF p(2) p(4) p(6)]
    show ?thesis by (simp only: td tu)
  qed
  have nonneg: "0 \<le> cellularDownload n \<and> 0 \<le> cellularUpload n
         \<and> 0 \<le> wifiOffloadDownload n \<and> 0 \<le> wifiOffloadUpload n
         \<and> 0 \<le> ethernetOffloadDownload n \<and> 0 \<le> ethernetOffloadUpload n
         \<and> 0 \<le> totalDownload n \<and> 0 \<le> totalUpload n"
    if a: "\<forall>v \<in> set (counterFields data). \<forall>k. parseInt v = Some k \<longrightarrow> 0 \<le> k"
  proof -
    from a have f:
      "0 \<le> parseIntOr0 (lookupPath data [''wwan'', ''dataTransferredRx''])"
      "0 \<le> parseIntOr0 (lookupPath data [''wwan'', ''dataTransferredTx''])"
      "0 \<le> parseIntOr0 (lookupPath data [''wifi'', ''offload'', ''dataTransferred'', ''tx''])"
      "0 \<le> parseIntOr0 (lookupPath data [''wifi'', ''offload'', ''dataTransferred'', ''rx''])"
      "0 \<le> parseIntOr0 (lookupPath data [''ethernet'', ''offload'', ''tx''])"
      "0 \<le> parseIntOr0 (lookupPath data [''ethernet'', ''offload'', ''rx''])"
      by (simp_all add: counterFields_def parseIntOr0_nonneg)
    have p: "0 \<le> cellularDownload n" "0 \<le> cellularUpload n"
      "0 \<le> wifiOffloadDownload n" "0 \<le> wifiOffloadUpload n"
      "0 \<le> ethernetOffloadDownload n" "0 \<le> ethernetOffloadUpload n"
      using f by (simp_all add: cd cu wd wu ed eu)
    then show ?thesis by (simp add: td tu)
  qed
  from safe have safe1: "\<bar>totalDownload n\<bar> < 2 ^ 53" and safe2: "\<bar>totalUpload n\<bar> < 2 ^ 53"
    by simp_all
  show ?thesis
    using n tot1 tot2 wifi_absent eth_absent unparsable td tu safe1 safe2 nonneg
    by (intro exI [of _ n] conjI impI) simp_all
qed

lemma cellularSnapshot_paths:
  "lookupPath (cellularSnapshot rx tx lifetime) [''wwan'', ''dataTransferredRx''] = rx"
  "lookupPath (cellularSnapshot rx tx lifetime) [''wwan'', ''dataTransferredTx''] = tx"
  "lookupPath (cellularSnapshot rx tx lifetime) [''wwan'', ''dataUsage'', ''generic'', ''dataTransferred'']
     = lifetime"
  "lookupPath (cellularSnapshot rx tx lifetime)
     [''wwan'', ''dataUsage'', ''generic'', ''dataTransferredRoaming''] = JUndefined"
  "lookupPath (cellularSnapshot rx tx lifetime) [''wifi'', ''offload''] = JUndefined"
  "lookupPath (cellularSnapshot rx tx lifetime) [''wifi'', ''offload'', ''dataTransferred'', ''tx'']
     = JUndefined"
  "lookupPath (cellularSnapshot rx tx lifetime) [''wifi'', ''offload'', ''dataTransferred'', ''rx'']
     = JUndefined"
  "lookupPath (cellularSnapshot rx tx lifetime) [''ethernet'', ''offload''] = JUndefined"
  "lookupPath (cellularSnapshot rx tx lifetime) [''ethernet'', ''offload'', ''tx''] = JUndefined"
  "lookupPath (cellularSnapshot rx tx lifetime) [''ethernet'', ''offload'', ''rx''] = JUndefined"
  by (simp_all add: lookupPath.simps cellularSnapshot_def jsonField_def)

lemma cellularSnapshot_guards:
  "validData (cellularSnapshot rx tx lifetime)" "hasDataUsage (cellularSnapshot rx tx lifetime)"
  "truthy (cellularSnapshot rx tx lifetime)"
  by (simp_all add: guard_defs cellularSnapshot_def jsonField_def)

lemma cellularSnapshot_totals:
  "aggregateTotals (cellularSnapshot rx tx lifetime) = Inr (parseIntOr0 rx, parseIntOr0 tx)"
  by (simp add: normalize_defs cellularSnapshot_def jsonField_def)

lemma cellularSnapshot_signal:
  "signalOf (cellularSnapshot rx tx lifetime) = Inr (JNum 60, JNum (- 95), JNum (- 11), JNum 7)"
  by (simp add: signalOf_def cellularSnapshot_def jsonField_def)

lemma cellularSnapshot_normalize:
  "normalize (cellularSnapshot rx tx lifetime) =
     Inr (cellularOnly (parseIntOr0 rx) (parseIntOr0 tx) (parseInt (orElse lifetime (JNum 0))))"
  by (simp add: normalize_defs cellularSnapshot_def jsonField_def cellularOnly_def parse_numbers
      split: option.splits)

lemma parse_sparse:
  "parseIntOr0 (JStr ''n/a'') = 0" "parseIntOr0 JUndefined = 0" "parseIntOr0 (JStr ''-5'') = - 5"
  "parseInt (orElse JUndefined (JNum 0)) = Some 0"
  by code_simp+

theorem lenient_parsing_total_witness:
  "validData sparseSnapshot \<and> hasDataUsage sparseSnapshot
   \<and> list_all stringifies (parsedFields sparseSnapshot)
   \<and> list_all safeCounter (counterFields sparseSnapshot)
   \<and> dataBarsPrint sparseSnapshot
   \<and> aggregateTotals sparseSnapshot = Inr (0, 0)
   \<and> \<not> truthy (lookupPath sparseSnapshot [''wifi'', ''offload''])
   \<and> \<not> truthy (lookupPath sparseSnapshot [''ethernet'', ''offload''])
   \<and> parseInt (lookupPath sparseSnapshot [''wwan'', ''dataTransferredRx'']) = None
   \<and> parseInt (lookupPath sparseSnapshot [''wwan'', ''dataTransferredTx'']) = None
   \<and> (\<exists>n. normalize sparseSnapshot = Inr n
        \<and> cellularDownload n = 0 \<and> cellularUpload n = 0
        \<and> wifiOffloadDownload n = 0 \<and> wifiOffloadUpload n = 0
        \<and> \<not> truthy (wifiOffloadActive n)
        \<and> ethernetOffloadDownload n = 0 \<and> ethernetOffloadUpload n = 0
        \<and> \<not> truthy (ethernetOffloadActive n)
        \<and> totalDownload n = 0 \<and> totalUpload n = 0)"
proof -
  have v: "validData sparseSnapshot" and h: "hasDataUsage sparseSnapshot"
    by (simp_all add: sparseSnapshot_def cellularSnapshot_guards)
  have paths:
    "lookupPath sparseSnapshot [''wifi'', ''offload''] = JUndefined"
    "lookupPath sparseSnapshot [''ethernet'', ''offload''] = JUndefined"
    "lookupPath sparseSnapshot [''wwan'', ''dataTransferredRx''] = JStr ''n/a''"
    "lookupPath sparseSnapshot [''wwan'', ''dataTransferredTx''] = JUndefined"
    by (simp_all add: sparseSnapshot_def cellularSnapshot_paths)
  have st: "list_all stringifies (parsedFields sparseSnapshot)"
    by (simp add: parsedFields_def counterFields_def sparseSnapshot_def cellularSnapshot_paths)
  have sc: "list_all safeCounter (counterFields sparseSnapshot)"
    by (simp add: counterFields_def sparseSnapshot_def cellularSnapshot_paths safeCounter_def
        parse_sparse)
  have a: "aggregateTotals sparseSnapshot = Inr (0, 0)"
    by (simp add: sparseSnapshot_def cellularSnapshot_totals parse_sparse)
  have b: "dataBarsPrint sparseSnapshot"
    by (simp add: dataBarsPrint_def a dataBars_nonpos)
  from lenient_parsing_total [OF v h st sc b] obtain n where n: "normalize sparseSnapshot = Inr n"
    and w: "wifiOffloadDownload n = 0 \<and> wifiOffloadUpload n = 0 \<and> \<not> truthy (wifiOffloadActive n)"
    and e: "ethernetOffloadDownload n = 0 \<and> ethernetOffloadUpload n = 0
         \<and> \<not> truthy (ethernetOffloadActive n)"
    and c: "cellularDownload n = 0" "cellularUpload n = 0"
    and t: "aggregateTotals sparseSnapshot = Inr (totalDownload n, totalUpload n)"
    unfolding paths parse_strings by (elim exE conjE) simp
  from t have t0: "totalDownload n = 0" "totalUpload n = 0"
    by (simp_all add: a)
  from v h st sc b a n w e c t0 show ?thesis
    by (intro conjI exI [of _ n]) (simp_all add: paths parse_strings)
qed

theorem lenient_parsing_counterexample:
  "validData negativeSnapshot \<and> hasDataUsage negativeSnapshot
   \<and> list_all stringifies (parsedFields negativeSnapshot)
   \<and> list_all safeCounter (counterFields negativeSnapshot)
   \<and> dataBarsPrint negativeSnapshot
   \<and> aggregateTotals negativeSnapshot = Inr (- 5, 0)
   \<and> dataBars (- 5) 0 = None
   \<and> normalize negativeSnapshot =
       Inr \<lparr> totalDownload = - 5, totalUpload = 0, totalLifetimeBytes = Some 0,
             cellularDownload = - 5, cellularUpload = 0,
             wifiOffloadDownload = 0, wifiOffloadUpload = 0,
             wifiOffloadActive = JUndefined, wifiOffloadSsid = JNull,
             wifiOffloadRssi = JNull, wifiOffloadBars = JNull,
             ethernetOffloadDownload = 0, ethernetOffloadUpload = 0,
             ethernetOffloadActive = JUndefined \<rparr>"
proof -
  have v: "validData negativeSnapshot" and h: "hasDataUsage negativeSnapshot"
    by (simp_all add: negativeSnapshot_def cellularSnapshot_guards)
  have st: "list_all stringifies (parsedFields negativeSnapshot)"
    by (simp add: parsedFields_def counterFields_def negativeSnapshot_def cellularSnapshot_paths)
  have sc: "list_all safeCounter (counterFields negativeSnapshot)"
    by (simp add: counterFields_def negativeSnapshot_def cellularSnapshot_paths safeCounter_def
        parse_sparse)
  have a: "aggregateTotals negativeSnapshot = Inr (- 5, 0)"
    by (simp add: negativeSnapshot_def cellularSnapshot_totals parse_sparse)
  have b: "dataBars (- 5) 0 = None"
    by (rule dataBars_nonpos) simp
  have bp: "dataBarsPrint negativeSnapshot"
    by (simp add: dataBarsPrint_def a b)
  have n: "normalize negativeSnapshot =
       Inr \<lparr> totalDownload = - 5, totalUpload = 0, totalLifetimeBytes = Some 0,
             cellularDownload = - 5, cellularUpload = 0,
             wifiOffloadDownload = 0, wifiOffloadUpload = 0,
             wifiOffloadActive = JUndefined, wifiOffloadSsid = JNull,
             wifiOffloadRssi = JNull, wifiOffloadBars = JNull,
             ethernetOffloadDownload = 0, ethernetOffloadUpload = 0,
             ethernetOffloadActive = JUndefined \<rparr>"
    by (simp add: negativeSnapshot_def cellularSnapshot_normalize parse_sparse cellularOnly_def)
  from v h st sc bp a b n show ?thesis by (intro conjI)
qed

section \<open>Properties of the bandwidth calculation and of gap interpolation\<close>

lemma upto_1_9: "[1 .. 9] = [1, 2, 3, 4, 5, 6, 7, 8, 9 :: int]"
  by code_simp

lemma lastEntry_single:
  "lifetime_bytes r \<noteq> None \<Longrightarrow> lastEntry [r] = Some r"
  by (simp add: lastEntry_def)

text \<open>
  Claim C10. \<^verbatim>\<open>calculateBandwidth\<close> returns 0 whenever the previous counter is 0,
  whatever the current counter and the interval are: an interval that starts from a
  zero counter reports zero speed.
\<close>

theorem zero_previous_reports_zero:
  "calculateBandwidth currentBytes 0 timeInterval = Some 0"
  by (simp add: calculateBandwidth_def)

lemma calculateBandwidth_nonneg:
  assumes "0 < timeInterval"
  shows "\<exists>v. calculateBandwidth currentBytes previousBytes timeInterval = Some v \<and> 0 \<le> v"
  using assms by (simp add: calculateBandwidth_def Let_def)

lemma speedsLoop_samples:
  "\<forall>x \<in> set (download (speedsLoop rows)) \<union> set (upload (speedsLoop rows)). \<exists>v. x = Some v \<and> 0 \<le> v"
proof (induction rows rule: induct_list012)
  case 1
  show ?case by simp
next
  case (2 x)
  show ?case by simp
next
  case (3 previous current rest)
  then show ?case
    by (auto simp: Let_def zero_le_divide_iff)
qed


lemma calculateSpeedsFromTimeseries_samples:
  "\<forall>x \<in> set (download (calculateSpeedsFromTimeseries db limit))
        \<union> set (upload (calculateSpeedsFromTimeseries db limit)). \<exists>v. x = Some v \<and> 0 \<le> v"
  using speedsLoop_samples by (simp add: calculateSpeedsFromTimeseries_def Let_def)

text \<open>
  Claim C6. For two snapshots with non-decreasing aggregate counters, the second taken
  later than the first, both speeds of the live poll cycle are numbers that are at least
  0, and so are both speeds recomputed from the two persisted rows; every sample that
  \<^verbatim>\<open>calculateSpeedsFromTimeseries\<close> returns, on any table, is at least 0.
\<close>

theorem speeds_nonneg:
  assumes "totalDownload prevS \<le> totalDownload currS"
    and "totalUpload prevS \<le> totalUpload currS"
    and "timestamp previous < timestamp current"
    and "total_rx_bytes previous \<le> total_rx_bytes current"
    and "total_tx_bytes previous \<le> total_tx_bytes current"
  shows "(\<exists>d u. calculateBandwidth (totalDownload currS) (totalDownload prevS) POLL_INTERVAL = Some d
            \<and> calculateBandwidth (totalUpload currS) (totalUpload prevS) POLL_INTERVAL = Some u
            \<and> 0 \<le> d \<and> 0 \<le> u)
    \<and> (\<exists>d u. calculateBandwidth (totalDownload currS) (totalDownload prevS)
                (timestamp current - timestamp previous) = Some d
            \<and> calculateBandwidth (totalUpload currS) (totalUpload prevS)
                (timestamp current - timestamp previous) = Some u
            \<and> 0 \<le> d \<and> 0 \<le> u)
    \<and> (\<exists>d u. speedsLoop [previous, current] =
                \<lparr> download = [Some d], upload = [Some u], timestamps = [timestamp current] \<rparr>
            \<and> 0 \<le> d \<and> 0 \<le> u)
    \<and> (\<forall>x \<in> set (download (calculateSpeedsFromTimeseries db limit))
              \<union> set (upload (calculateSpeedsFromTimeseries db limit)). \<exists>v. x = Some v \<and> 0 \<le> v)"
proof (intro conjI)
  have p: "0 < POLL_INTERVAL" by (simp add: POLL_INTERVAL_def)
  obtain d where d: "calculateBandwidth (totalDownload currS) (totalDownload prevS) POLL_INTERVAL = Some d"
    "0 \<le> d"
    using calculateBandwidth_nonneg [OF p] by blast
  obtain u where u: "calculateBandwidth (totalUpload currS) (totalUpload prevS) POLL_INTERVAL = Some u"
    "0 \<le> u"
    using calculateBandwidth_nonneg [OF p] by blast
  from d u
  show "\<exists>d u. calculateBandwidth (totalDownload currS) (totalDownload prevS) POLL_INTERVAL = Some d
            \<and> calculateBandwidth (totalUpload currS) (totalUpload prevS) POLL_INTERVAL = Some u
            \<and> 0 \<le> d \<and> 0 \<le> u"
    by simp
  from assms(3) have t: "0 < timestamp current - timestamp previous" by simp
  then show "\<exists>d u. calculateBandwidth (totalDownload currS) (totalDownload prevS)
                (timestamp current - timestamp previous) = Some d
            \<and> calculateBandwidth (totalUpload currS) (totalUpload prevS)
                (timestamp current - timestamp previous) = Some u
            \<and> 0 \<le> d \<and> 0 \<le> u"
    by (simp add: calculateBandwidth_def Let_def)
  from assms(3-5) show "\<exists>d u. speedsLoop [previous, current] =
                \<lparr> download = [Some d], upload = [Some u], timestamps = [timestamp current] \<rparr>
            \<and> 0 \<le> d \<and> 0 \<le> u"
    by (simp add: Let_def zero_le_divide_iff)
  show "\<forall>x \<in> set (download (calculateSpeedsFromTimeseries db limit))
              \<union> set (upload (calculateSpeedsFromTimeseries db limit)). \<exists>v. x = Some v \<and> 0 \<le> v"
    by (rule calculateSpeedsFromTimeseries_samples)
qed

theorem speeds_nonneg_witness:
  "totalDownload (cellularOnly 1000 200 None) \<le> totalDownload (cellularOnly 1500 300 None)
   \<and> totalUpload (cellularOnly 1000 200 None) \<le> totalUpload (cellularOnly 1500 300 None)
   \<and> timestamp (cellularRow 0 200 1000 None) < timestamp (cellularRow 5000 300 1500 None)
   \<and> total_rx_bytes (cellularRow 0 200 1000 None) \<le> total_rx_bytes (cellularRow 5000 300 1500 None)
   \<and> total_tx_bytes (cellularRow 0 200 1000 None) \<le> total_tx_bytes (cellularRow 5000 300 1500 None)
   \<and> (\<exists>d u. calculateBandwidth 1500 1000 POLL_INTERVAL = Some d
          \<and> calculateBandwidth 300 200 POLL_INTERVAL = Some u \<and> 0 \<le> d \<and> 0 \<le> u)
   \<and> (\<exists>d u. speedsLoop [cellularRow 0 200 1000 None, cellularRow 5000 300 1500 None] =
                \<lparr> download = [Some d], upload = [Some u], timestamps = [5000] \<rparr>
          \<and> 0 \<le> d \<and> 0 \<le> u)
   \<and> calculateBandwidth 1500 1000 POLL_INTERVAL = Some 100
   \<and> calculateBandwidth 300 200 POLL_INTERVAL = Some 20"
proof -
  let ?p = "cellularOnly 1000 200 None" and ?c = "cellularOnly 1500 300 None"
  let ?r = "cellularRow 0 200 1000 None" and ?r' = "cellularRow 5000 300 1500 None"
  have h1: "totalDownload ?p \<le> totalDownload ?c" and h2: "totalUpload ?p \<le> totalUpload ?c"
    by (simp_all add: cellularOnly_def)
  have h3: "timestamp ?r < timestamp ?r'" and h4: "total_rx_bytes ?r \<le> total_rx_bytes ?r'"
    and h5: "total_tx_bytes ?r \<le> total_tx_bytes ?r'"
    by (simp_all add: cellularRow_def)
  note t = speeds_nonneg [OF h1 h2 h3 h4 h5, of "[]" 0]
  have sel: "totalDownload ?p = 1000" "totalDownload ?c = 1500" "totalUpload ?p = 200"
    "totalUpload ?c = 300" "timestamp ?r' = 5000"
    by (simp_all add: cellularOnly_def cellularRow_def)
  have live: "\<exists>d u. calculateBandwidth 1500 1000 POLL_INTERVAL = Some d
          \<and> calculateBandwidth 300 200 POLL_INTERVAL = Some u \<and> 0 \<le> d \<and> 0 \<le> u"
    using t [THEN conjunct1] by (simp only: sel)
  have hist: "\<exists>d u. speedsLoop [?r, ?r'] =
                \<lparr> download = [Some d], upload = [Some u], timestamps = [5000] \<rparr>
          \<and> 0 \<le> d \<and> 0 \<le> u"
    using t [THEN conjunct2, THEN conjunct2, THEN conjunct1] by (simp only: sel)
  have vals: "calculateBandwidth 1500 1000 POLL_INTERVAL = Some 100"
    "calculateBandwidth 300 200 POLL_INTERVAL = Some 20"
    by (simp_all add: calculateBandwidth_def POLL_INTERVAL_def)
  from h1 h2 h3 h4 h5 live hist vals show ?thesis by (intro conjI)
qed

text \<open>
  Claim C3, as amended. When the last record has lifetime bytes 1000 at time 0 and the
  new record has lifetime bytes 2000 at ten poll intervals, \<^verbatim>\<open>handleDataGap\<close> inserts
  exactly 9 synthetic records, one per poll interval from 5000 ms to 45000 ms, whose
  lifetime values 1100, 1200, ..., 1900 increase strictly between 1000 and 2000 and
  whose consecutive differences, from the last record through to the new one, sum to
  1000.
\<close>

theorem gap_interpolation_nine_records:
  assumes "lastEntry db = Some le" and "timestamp le = 0" and "lifetime_bytes le = Some 1000"
  shows "\<exists>rows. handleDataGap db (10 * POLL_INTERVAL) (Some 2000) = (True, db @ rows)
    \<and> length rows = 9
    \<and> map timestamp rows = [5000, 10000, 15000, 20000, 25000, 30000, 35000, 40000, 45000]
    \<and> map lifetime_bytes rows =
        map Some [1100, 1200, 1300, 1400, 1500, 1600, 1700, 1800, 1900]
    \<and> sorted_wrt (<) (1000 # map (the \<circ> lifetime_bytes) rows @ [2000])
    \<and> sum_list (deltas (1000 # map (the \<circ> lifetime_bytes) rows @ [2000])) = 1000"
proof -
  let ?rows = "interpolatedRows 0 1000 1000 10"
  have g: "handleDataGap db (10 * POLL_INTERVAL) (Some 2000) = (True, db @ ?rows)"
    using assms by (simp add: handleDataGap_def POLL_INTERVAL_def)
  have r: "?rows = [interpolatedRow 5000 1100, interpolatedRow 10000 1200, interpolatedRow 15000 1300,
      interpolatedRow 20000 1400, interpolatedRow 25000 1500, interpolatedRow 30000 1600,
      interpolatedRow 35000 1700, interpolatedRow 40000 1800, interpolatedRow 45000 1900]"
    by (simp add: interpolatedRows_def upto_1_9 POLL_INTERVAL_def)
  have sel: "timestamp (interpolatedRow t l) = t" "lifetime_bytes (interpolatedRow t l) = Some l" for t l
    by (simp_all add: interpolatedRow_def)
  show ?thesis
    by (rule exI [of _ ?rows]) (simp add: g r sel)
qed

theorem gap_interpolation_nine_records_witness:
  "lastEntry [cellularRow 0 200 1000 (Some 1000)] = Some (cellularRow 0 200 1000 (Some 1000))
   \<and> timestamp (cellularRow 0 200 1000 (Some 1000)) = 0
   \<and> lifetime_bytes (cellularRow 0 200 1000 (Some 1000)) = Some 1000
   \<and> (\<exists>rows. handleDataGap [cellularRow 0 200 1000 (Some 1000)] (10 * POLL_INTERVAL) (Some 2000)
                = (True, [cellularRow 0 200 1000 (Some 1000)] @ rows)
         \<and> length rows = 9
         \<and> map lifetime_bytes rows =
             map Some [1100, 1200, 1300, 1400, 1500, 1600, 1700, 1800, 1900])"
proof -
  let ?r = "cellularRow 0 200 1000 (Some 1000)"
  have h2: "timestamp ?r = 0" and h3: "lifetime_bytes ?r = Some 1000"
    by (simp_all add: cellularRow_def)
  have h1: "lastEntry [?r] = Some ?r"
    by (rule lastEntry_single) (simp add: h3)
  from gap_interpolation_nine_records [OF h1 h2 h3] h1 h2 h3 show ?thesis
    by (elim exE conjE) (intro conjI exI; assumption)
qed

theorem gap_interpolation_counterexample:
  "handleDataGap [cellularRow 0 200 1000 (Some 1000)] (10 * POLL_INTERVAL) (Some 2000) =
     (True, [cellularRow 0 200 1000 (Some 1000),
             interpolatedRow 5000 1100, interpolatedRow 10000 1200, interpolatedRow 15000 1300,
             interpolatedRow 20000 1400, interpolatedRow 25000 1500, interpolatedRow 30000 1600,
             interpolatedRow 35000 1700, interpolatedRow 40000 1800, interpolatedRow 45000 1900])"
proof -
  let ?r = "cellularRow 0 200 1000 (Some 1000)"
  have h2: "timestamp ?r = 0" and h3: "lifetime_bytes ?r = Some 1000"
    by (simp_all add: cellularRow_def)
  have h1: "lastEntry [?r] = Some ?r"
    by (rule lastEntry_single) (simp add: h3)
  have "interpolatedRows 0 1000 1000 10 =
     [interpolatedRow 5000 1100, interpolatedRow 10000 1200, interpolatedRow 15000 1300,
      interpolatedRow 20000 1400, interpolatedRow 25000 1500, interpolatedRow 30000 1600,
      interpolatedRow 35000 1700, interpolatedRow 40000 1800, interpolatedRow 45000 1900]"
    by (simp add: interpolatedRows_def upto_1_9 POLL_INTERVAL_def)
  then show ?thesis
    using h1 h2 h3 by (simp add: handleDataGap_def POLL_INTERVAL_def)
qed

section \<open>Properties of the usage windows\<close>

lemma sqlMin_Min: "xs \<noteq> [] \<Longrightarrow> sqlMin xs = Some (Min (set xs))"
proof (cases xs)
  case Nil
  assume "xs \<noteq> []"
  with Nil show ?thesis by simp
next
  case (Cons a list)
  have "fold min list a = Min (set (a # list))"
    by (rule Min.set_eq_fold [symmetric])
  with Cons show ?thesis by simp
qed

lemma sqlMax_Max: "xs \<noteq> [] \<Longrightarrow> sqlMax xs = Some (Max (set xs))"
proof (cases xs)
  case Nil
  assume "xs \<noteq> []"
  with Nil show ?thesis by simp
next
  case (Cons a list)
  have "fold max list a = Max (set (a # list))"
    by (rule Max.set_eq_fold [symmetric])
  with Cons show ?thesis by simp
qed

lemma usageSince_eq:
  "usageSince db cutoffTime =
     (if windowRows db cutoffTime = [] then None
      else Some (Max (aggregateBytes ` set (windowRows db cutoffTime))
                 - Min (aggregateBytes ` set (windowRows db cutoffTime))))"
  by (simp add: usageSince_def sqlMin_Min sqlMax_Max)

text \<open>
  Claim C4, as amended. For every window, the usage aggregator returns null when no
  record has its timestamp within the window, and otherwise the difference between the
  greatest and the least aggregate counter of the records in the window; with exactly
  one record in the window that difference is 0, not null.
\<close>

theorem usage_window_null_or_delta:
  "usageSince db cutoffTime =
     (if windowRows db cutoffTime = [] then None
      else Some (Max (aggregateBytes ` set (windowRows db cutoffTime))
                 - Min (aggregateBytes ` set (windowRows db cutoffTime))))
   \<and> (length (windowRows db cutoffTime) = 1 \<longrightarrow> usageSince db cutoffTime = Some 0)
   \<and> calculateUsageOverTime db now = map (\<lambda>(label, w). (label, usageSince db (now - w))) periods"
proof (intro conjI impI)
  show "usageSince db cutoffTime =
     (if windowRows db cutoffTime = [] then None
      else Some (Max (aggregateBytes ` set (windowRows db cutoffTime))
                 - Min (aggregateBytes ` set (windowRows db cutoffTime))))"
    by (rule usageSince_eq)
  show "usageSince db cutoffTime = Some 0" if "length (windowRows db cutoffTime) = 1"
  proof -
    from that obtain r where "windowRows db cutoffTime = [r]"
      by (cases "windowRows db cutoffTime") simp_all
    then show ?thesis by (simp add: usageSince_def)
  qed
  show "calculateUsageOverTime db now = map (\<lambda>(label, w). (label, usageSince db (now - w))) periods"
    by (simp add: calculateUsageOverTime_def)
qed

theorem usage_window_null_or_delta_witness:
  "length (windowRows [cellularRow 1000 200 1000 (Some 1000)] (1000 - 5 * 60 * 1000)) = 1
   \<and> usageSince [cellularRow 1000 200 1000 (Some 1000)] (1000 - 5 * 60 * 1000) = Some 0"
proof -
  have h: "length (windowRows [cellularRow 1000 200 1000 (Some 1000)] (1000 - 5 * 60 * 1000)) = 1"
    by (simp add: windowRows_def cellularRow_def)
  from usage_window_null_or_delta [THEN conjunct2, THEN conjunct1, THEN mp, OF h] h
  show ?thesis by (rule conjI [rotated])
qed

lemma interpolatedRows_zero:
  assumes "r \<in> set (interpolatedRows t l d n)"
  shows "total_rx_bytes r = 0 \<and> total_tx_bytes r = 0 \<and> session_duration r = JNum 0
    \<and> signal_rsrp r = JNull \<and> signal_rsrq r = JNull \<and> signal_sinr r = JNull"
  using assms by (auto simp: interpolatedRows_def interpolatedRow_def)

lemma handleDataGap_appends:
  "\<exists>rows. snd (handleDataGap db ts lb) = db @ rows
     \<and> (rows = [] \<or> (\<exists>t l d n. rows = interpolatedRows t l d n))"
proof (cases "\<exists>t l d n. snd (handleDataGap db ts lb) = db @ interpolatedRows t l d n")
  case True
  then show ?thesis by blast
next
  case False
  then have "snd (handleDataGap db ts lb) = db"
    by (auto simp: handleDataGap_def Let_def split: option.splits if_splits)
  then show ?thesis by simp
qed

lemma sqlMin_zero:
  assumes "(0::int) \<in> set xs" and "\<forall>x \<in> set xs. 0 \<le> x"
  shows "sqlMin xs = Some 0"
proof -
  from assms(1) have ne: "xs \<noteq> []" by auto
  have "Min (set xs) = 0"
    using assms by (intro Min_eqI) auto
  with ne show ?thesis by (simp add: sqlMin_Min)
qed

text \<open>
  Claim C8, as amended. Every record that \<^verbatim>\<open>handleDataGap\<close> inserts has
  \<^verbatim>\<open>total_rx_bytes = 0\<close>, \<^verbatim>\<open>total_tx_bytes = 0\<close> and \<^verbatim>\<open>session_duration = 0\<close> with
  null signal fields. Consequently, for every usage window that contains at least one
  of these records and no record with a negative aggregate, the minimum of
  \<^verbatim>\<open>total_rx_bytes + total_tx_bytes\<close> over the window is 0 and the windowed usage equals
  the maximum aggregate of the window.
\<close>

theorem synthetic_records_zero_min:
  "\<exists>rows. snd (handleDataGap db ts lb) = db @ rows
     \<and> (\<forall>r \<in> set rows. total_rx_bytes r = 0 \<and> total_tx_bytes r = 0
            \<and> session_duration r = JNum 0
            \<and> signal_rsrp r = JNull \<and> signal_rsrq r = JNull \<and> signal_sinr r = JNull)
     \<and> (\<forall>db' cutoffTime.
            (\<exists>r \<in> set rows. r \<in> set (windowRows db' cutoffTime))
            \<and> (\<forall>x \<in> set (windowRows db' cutoffTime). 0 \<le> aggregateBytes x)
          \<longrightarrow> sqlMin (map aggregateBytes (windowRows db' cutoffTime)) = Some 0
              \<and> usageSince db' cutoffTime = sqlMax (map aggregateBytes (windowRows db' cutoffTime))
              \<and> usageSince db' cutoffTime
                  = Some (Max (aggregateBytes ` set (windowRows db' cutoffTime))))"
proof -
  from handleDataGap_appends obtain rows where rows: "snd (handleDataGap db ts lb) = db @ rows"
    and shape: "rows = [] \<or> (\<exists>t l d n. rows = interpolatedRows t l d n)"
    by blast
  have zero: "total_rx_bytes r = 0 \<and> total_tx_bytes r = 0 \<and> session_duration r = JNum 0
      \<and> signal_rsrp r = JNull \<and> signal_rsrq r = JNull \<and> signal_sinr r = JNull"
    if "r \<in> set rows" for r
    using that shape interpolatedRows_zero by auto
  have win: "sqlMin (map aggregateBytes (windowRows db' cutoffTime)) = Some 0
      \<and> usageSince db' cutoffTime = sqlMax (map aggregateBytes (windowRows db' cutoffTime))
      \<and> usageSince db' cutoffTime = Some (Max (aggregateBytes ` set (windowRows db' cutoffTime)))"
    if a: "(\<exists>r \<in> set rows. r \<in> set (windowRows db' cutoffTime))
            \<and> (\<forall>x \<in> set (windowRows db' cutoffTime). 0 \<le> aggregateBytes x)"
    for db' cutoffTime
  proof -
    let ?w = "windowRows db' cutoffTime"
    from a obtain r where r: "r \<in> set rows" "r \<in> set ?w" by blast
    from zero [OF r(1)] have "aggregateBytes r = 0" by (simp add: aggregateBytes_def)
    with r(2) have z: "0 \<in> set (map aggregateBytes ?w)" by force
    from a have nn: "\<forall>x \<in> set (map aggregateBytes ?w). 0 \<le> x" by simp
    from z nn have m: "sqlMin (map aggregateBytes ?w) = Some 0" by (rule sqlMin_zero)
    from r(2) have ne: "?w \<noteq> []" by auto
    then have mx: "sqlMax (map aggregateBytes ?w) = Some (Max (aggregateBytes ` set ?w))"
      by (simp add: sqlMax_Max)
    have u: "usageSince db' cutoffTime = sqlMax (map aggregateBytes ?w)"
      by (simp add: usageSince_def m mx)
    from m u mx show ?thesis by simp
  qed
  from rows zero win show ?thesis by blast
qed

lemma gap_example:
  "snd (handleDataGap [cellularRow 0 200 1000 (Some 1000)] (10 * POLL_INTERVAL) (Some 2000)) =
     [cellularRow 0 200 1000 (Some 1000)] @
     [interpolatedRow 5000 1100, interpolatedRow 10000 1200, interpolatedRow 15000 1300,
      interpolatedRow 20000 1400, interpolatedRow 25000 1500, interpolatedRow 30000 1600,
      interpolatedRow 35000 1700, interpolatedRow 40000 1800, interpolatedRow 45000 1900]"
proof -
  let ?r = "cellularRow 0 200 1000 (Some 1000)"
  have h2: "timestamp ?r = 0" and h3: "lifetime_bytes ?r = Some 1000"
    by (simp_all add: cellularRow_def)
  have h1: "lastEntry [?r] = Some ?r"
    by (rule lastEntry_single) (simp add: h3)
  have "interpolatedRows 0 1000 1000 10 =
     [interpolatedRow 5000 1100, interpolatedRow 10000 1200, interpolatedRow 15000 1300,
      interpolatedRow 20000 1400, interpolatedRow 25000 1500, interpolatedRow 30000 1600,
      interpolatedRow 35000 1700, interpolatedRow 40000 1800, interpolatedRow 45000 1900]"
    by (simp add: interpolatedRows_def upto_1_9 POLL_INTERVAL_def)
  then show ?thesis
    using h1 h2 h3 by (simp add: handleDataGap_def POLL_INTERVAL_def)
qed

lemma gapFilledTable_window: "windowRows gapFilledTable 0 = gapFilledTable"
  by (simp add: windowRows_def gapFilledTable_def cellularRow_def interpolatedRow_def)

lemma gapFilledTable_aggregates:
  "map aggregateBytes gapFilledTable = [1200, 0, 0, 0, 0, 0, 0, 0, 0, 0, 1800]"
  by (simp add: gapFilledTable_def aggregateBytes_def cellularRow_def interpolatedRow_def)

theorem synthetic_records_zero_min_witness:
  "snd (handleDataGap [cellularRow 0 200 1000 (Some 1000)] (10 * POLL_INTERVAL) (Some 2000)) =
     [cellularRow 0 200 1000 (Some 1000)] @
     [interpolatedRow 5000 1100, interpolatedRow 10000 1200, interpolatedRow 15000 1300,
      interpolatedRow 20000 1400, interpolatedRow 25000 1500, interpolatedRow 30000 1600,
      interpolatedRow 35000 1700, interpolatedRow 40000 1800, interpolatedRow 45000 1900]
   \<and> interpolatedRow 5000 1100 \<in> set (windowRows gapFilledTable 0)
   \<and> list_all (\<lambda>x. 0 \<le> aggregateBytes x) (windowRows gapFilledTable 0)
   \<and> total_rx_bytes (interpolatedRow 5000 1100) = 0
   \<and> total_tx_bytes (interpolatedRow 5000 1100) = 0
   \<and> sqlMin (map aggregateBytes (windowRows gapFilledTable 0)) = Some 0
   \<and> usageSince gapFilledTable 0 = sqlMax (map aggregateBytes (windowRows gapFilledTable 0))
   \<and> usageSince gapFilledTable 0 = Some 1800"
proof -
  let ?a = "cellularRow 0 200 1000 (Some 1000)"
  let ?rows9 = "[interpolatedRow 5000 1100, interpolatedRow 10000 1200, interpolatedRow 15000 1300,
      interpolatedRow 20000 1400, interpolatedRow 25000 1500, interpolatedRow 30000 1600,
      interpolatedRow 35000 1700, interpolatedRow 40000 1800, interpolatedRow 45000 1900]"
  from synthetic_records_zero_min [of "[?a]" "10 * POLL_INTERVAL" "Some 2000"]
  obtain rows where r1: "snd (handleDataGap [?a] (10 * POLL_INTERVAL) (Some 2000)) = [?a] @ rows"
    and r2: "\<forall>r \<in> set rows. total_rx_bytes r = 0 \<and> total_tx_bytes r = 0
            \<and> session_duration r = JNum 0
            \<and> signal_rsrp r = JNull \<and> signal_rsrq r = JNull \<and> signal_sinr r = JNull"
    and r3: "\<forall>db' cutoffTime.
            (\<exists>r \<in> set rows. r \<in> set (windowRows db' cutoffTime))
            \<and> (\<forall>x \<in> set (windowRows db' cutoffTime). 0 \<le> aggregateBytes x)
          \<longrightarrow> sqlMin (map aggregateBytes (windowRows db' cutoffTime)) = Some 0
              \<and> usageSince db' cutoffTime = sqlMax (map aggregateBytes (windowRows db' cutoffTime))
              \<and> usageSince db' cutoffTime
                  = Some (Max (aggregateBytes ` set (windowRows db' cutoffTime)))"
    by (elim exE conjE)
  from r1 have rows: "rows = ?rows9"
    by (simp only: gap_example same_append_eq)
  have mem: "interpolatedRow 5000 1100 \<in> set (windowRows gapFilledTable 0)"
    by (simp add: gapFilledTable_window) (simp add: gapFilledTable_def)
  have nn: "\<forall>x \<in> set (windowRows gapFilledTable 0). 0 \<le> aggregateBytes x"
  proof -
    have "\<forall>v \<in> set (map aggregateBytes gapFilledTable). 0 \<le> v"
      by (simp only: gapFilledTable_aggregates) simp
    then show ?thesis by (simp add: gapFilledTable_window)
  qed
  have prem: "(\<exists>r \<in> set rows. r \<in> set (windowRows gapFilledTable 0))
            \<and> (\<forall>x \<in> set (windowRows gapFilledTable 0). 0 \<le> aggregateBytes x)"
    using mem nn by (simp add: rows)
  note c = r3 [THEN spec, THEN spec, THEN mp, OF prem]
  have z1: "total_rx_bytes (interpolatedRow 5000 1100) = 0"
    and z2: "total_tx_bytes (interpolatedRow 5000 1100) = 0"
    using r2 by (simp_all add: rows)
  have mx: "Max (aggregateBytes ` set (windowRows gapFilledTable 0)) = 1800"
  proof -
    have "aggregateBytes ` set (windowRows gapFilledTable 0) = set (map aggregateBytes gapFilledTable)"
      by (simp add: gapFilledTable_window)
    then show ?thesis by (simp add: gapFilledTable_aggregates)
  qed
  from c have "usageSince gapFilledTable 0
      = Some (Max (aggregateBytes ` set (windowRows gapFilledTable 0)))"
    by (rule conjunct2 [THEN conjunct2])
  then have u: "usageSince gapFilledTable 0 = Some 1800" by (simp only: mx)
  have la: "list_all (\<lambda>x. 0 \<le> aggregateBytes x) (windowRows gapFilledTable 0)"
    using nn by (simp add: list_all_iff)
  from c have c1: "sqlMin (map aggregateBytes (windowRows gapFilledTable 0)) = Some 0"
    by (rule conjunct1)
  from c have c2: "usageSince gapFilledTable 0 = sqlMax (map aggregateBytes (windowRows gapFilledTable 0))"
    by (rule conjunct2 [THEN conjunct1])
  from gap_example mem la z1 z2 c1 c2 u show ?thesis by (intro conjI)
qed

section \<open>Properties of the poll cycle\<close>

lemma displayStats_first:
  assumes "validData data" and "hasDataUsage data" and "normalize data = Inr n"
    and "signalOf data = Inr (sess, rsrp, rsrq, sinr)"
    and "\<not> truthy (previousStats s)"
  shows "displayStats s data ts bwNow =
    (None, s\<lparr> timeseries_data :=
       saveTimeseriesData (snd (handleDataGap (timeseries_data s) ts (totalLifetimeBytes n))) ts
         (totalUpload n) (totalDownload n) sess (totalLifetimeBytes n) rsrp rsrq sinr
         (cellularDownload n) (cellularUpload n) (wifiOffloadDownload n) (wifiOffloadUpload n)
         (wifiOffloadActive n) (wifiOffloadSsid n) (wifiOffloadRssi n) (wifiOffloadBars n)
         (ethernetOffloadDownload n) (ethernetOffloadUpload n) (ethernetOffloadActive n) \<rparr>)"
  using assms by (simp add: displayStats_def bandwidthStep_def Let_def)

lemma displayStats_next:
  assumes "validData data" and "hasDataUsage data" and "normalize data = Inr n"
    and "signalOf data = Inr (sess, rsrp, rsrq, sinr)"
    and "truthy (previousStats s)"
    and "aggregateTotals (previousStats s) = Inr (prevDownload, prevUpload)"
  shows "displayStats s data ts bwNow =
    (None, s\<lparr> timeseries_data :=
       saveTimeseriesData (snd (handleDataGap (timeseries_data s) ts (totalLifetimeBytes n))) ts
         (totalUpload n) (totalDownload n) sess (totalLifetimeBytes n) rsrp rsrq sinr
         (cellularDownload n) (cellularUpload n) (wifiOffloadDownload n) (wifiOffloadUpload n)
         (wifiOffloadActive n) (wifiOffloadSsid n) (wifiOffloadRssi n) (wifiOffloadBars n)
         (ethernetOffloadDownload n) (ethernetOffloadUpload n) (ethernetOffloadActive n),
       bandwidth_history :=
         saveBandwidthData (bandwidth_history s) bwNow
           (calculateBandwidth (totalDownload n) prevDownload POLL_INTERVAL)
           (calculateBandwidth (totalUpload n) prevUpload POLL_INTERVAL),
       historyDownload :=
         fst (pushHistory (historyDownload s, historyUpload s)
           (calculateBandwidth (totalDownload n) prevDownload POLL_INTERVAL)
           (calculateBandwidth (totalUpload n) prevUpload POLL_INTERVAL)),
       historyUpload :=
         snd (pushHistory (historyDownload s, historyUpload s)
           (calculateBandwidth (totalDownload n) prevDownload POLL_INTERVAL)
           (calculateBandwidth (totalUpload n) prevUpload POLL_INTERVAL)) \<rparr>)"
  using assms by (simp add: displayStats_def bandwidthStep_def Let_def)













subsection \<open>Polls of the cellular modem alone\<close>

text \<open>A poll of the cellular modem alone when there is no previous snapshot.\<close>

lemma refresh_cellular_first:
  assumes "\<not> truthy (previousStats s)"
  shows "refresh s (cellularSnapshot rx tx lifetime) ts bwNow =
    (None, s\<lparr> timeseries_data :=
                snd (handleDataGap (timeseries_data s) ts (parseInt (orElse lifetime (JNum 0))))
                  @ [cellularRow ts (parseIntOr0 tx) (parseIntOr0 rx) (parseInt (orElse lifetime (JNum 0)))],
              previousStats := cellularSnapshot rx tx lifetime \<rparr>)"
proof -
  let ?n = "cellularOnly (parseIntOr0 rx) (parseIntOr0 tx) (parseInt (orElse lifetime (JNum 0)))"
  have l: "totalLifetimeBytes ?n = parseInt (orElse lifetime (JNum 0))"
    by (simp add: cellularOnly_def)
  show ?thesis
    by (simp add: refresh_def cellularSnapshot_guards
        displayStats_first [OF cellularSnapshot_guards(1,2) cellularSnapshot_normalize
          cellularSnapshot_signal assms])
       (simp add: saveTimeseriesData_def cellularOnly_def cellularRow_def)
qed

text \<open>A poll of the cellular modem alone after another one.\<close>

lemma refresh_cellular_next:
  assumes "previousStats s = cellularSnapshot rx0 tx0 lifetime0"
  shows "refresh s (cellularSnapshot rx tx lifetime) ts bwNow =
    (None, s\<lparr> timeseries_data :=
                snd (handleDataGap (timeseries_data s) ts (parseInt (orElse lifetime (JNum 0))))
                  @ [cellularRow ts (parseIntOr0 tx) (parseIntOr0 rx) (parseInt (orElse lifetime (JNum 0)))],
              bandwidth_history :=
                saveBandwidthData (bandwidth_history s) bwNow
                  (calculateBandwidth (parseIntOr0 rx) (parseIntOr0 rx0) POLL_INTERVAL)
                  (calculateBandwidth (parseIntOr0 tx) (parseIntOr0 tx0) POLL_INTERVAL),
              historyDownload :=
                fst (pushHistory (historyDownload s, historyUpload s)
                  (calculateBandwidth (parseIntOr0 rx) (parseIntOr0 rx0) POLL_INTERVAL)
                  (calculateBandwidth (parseIntOr0 tx) (parseIntOr0 tx0) POLL_INTERVAL)),
              historyUpload :=
                snd (pushHistory (historyDownload s, historyUpload s)
                  (calculateBandwidth (parseIntOr0 rx) (parseIntOr0 rx0) POLL_INTERVAL)
                  (calculateBandwidth (parseIntOr0 tx) (parseIntOr0 tx0) POLL_INTERVAL)),
              previousStats := cellularSnapshot rx tx lifetime \<rparr>)"
proof -
  let ?n = "cellularOnly (parseIntOr0 rx) (parseIntOr0 tx) (parseInt (orElse lifetime (JNum 0)))"
  have l: "totalLifetimeBytes ?n = parseInt (orElse lifetime (JNum 0))"
    and d: "totalDownload ?n = parseIntOr0 rx" and u: "totalUpload ?n = parseIntOr0 tx"
    by (simp_all add: cellularOnly_def)
  have p: "truthy (previousStats s)"
    by (simp add: assms cellularSnapshot_guards)
  have a: "aggregateTotals (previousStats s) = Inr (parseIntOr0 rx0, parseIntOr0 tx0)"
    by (simp add: assms cellularSnapshot_totals)
  show ?thesis
    by (simp add: refresh_def cellularSnapshot_guards
        displayStats_next [OF cellularSnapshot_guards(1,2) cellularSnapshot_normalize
          cellularSnapshot_signal p a])
       (simp add: saveTimeseriesData_def cellularOnly_def cellularRow_def)
qed

lemma startup_empty:
  "startup [] [] now =
     \<lparr> timeseries_data = [], bandwidth_history = [], previousStats = JNull,
       historyDownload = [], historyUpload = [] \<rparr>"
  by (simp add: startup_def calculateSpeedsFromTimeseries_def loadBandwidthHistory_def
      newestFirst_def)

lemma handleDataGap_same_lifetime:
  assumes "lastEntry db = None \<or> (\<exists>le. lastEntry db = Some le \<and> lifetime_bytes le = lb)"
  shows "handleDataGap db ts lb = (False, db)"
  using assms by (auto simp: handleDataGap_def Let_def split: option.splits)

lemma pushHistory_empty: "pushHistory ([], []) d u = ([d], [u])"
  by (simp add: pushHistory_def maxSamples_def)

lemma parse_zero_lifetime: "parseInt (orElse JUndefined (JNum 0)) = Some 0"
  by (simp add: orElse_def parse_numbers)

lemma twoPolls_eq:
  "twoPolls start t1 rx1 tx1 t2 rx2 tx2 =
     \<lparr> timeseries_data =
         [cellularRow t1 (parseIntOr0 tx1) (parseIntOr0 rx1) (Some 0),
          cellularRow t2 (parseIntOr0 tx2) (parseIntOr0 rx2) (Some 0)],
       bandwidth_history =
         [\<lparr> bw_timestamp = t2,
            download_speed = calculateBandwidth (parseIntOr0 rx2) (parseIntOr0 rx1) POLL_INTERVAL,
            upload_speed = calculateBandwidth (parseIntOr0 tx2) (parseIntOr0 tx1) POLL_INTERVAL \<rparr>],
       previousStats = cellularSnapshot rx2 tx2 JUndefined,
       historyDownload = [calculateBandwidth (parseIntOr0 rx2) (parseIntOr0 rx1) POLL_INTERVAL],
       historyUpload = [calculateBandwidth (parseIntOr0 tx2) (parseIntOr0 tx1) POLL_INTERVAL] \<rparr>"
proof -
  let ?s0 = "startup [] [] start"
  let ?r1 = "cellularRow t1 (parseIntOr0 tx1) (parseIntOr0 rx1) (Some 0)"
  let ?s1 = "\<lparr> timeseries_data = [?r1], bandwidth_history = [], previousStats = cellularSnapshot rx1 tx1 JUndefined,
       historyDownload = [], historyUpload = [] \<rparr>"
  have g0: "handleDataGap [] t1 (Some 0) = (False, [])"
    by (rule handleDataGap_same_lifetime) (simp add: lastEntry_def)
  have first: "snd (refresh ?s0 (cellularSnapshot rx1 tx1 JUndefined) t1 t1) = ?s1"
    by (simp add: refresh_cellular_first startup_empty parse_zero_lifetime g0)
  have le: "lastEntry [?r1] = Some ?r1"
    by (rule lastEntry_single) (simp add: cellularRow_def)
  have lt: "lifetime_bytes ?r1 = Some 0"
    by (simp add: cellularRow_def)
  have g1: "handleDataGap [?r1] t2 (Some 0) = (False, [?r1])"
    by (rule handleDataGap_same_lifetime) (simp add: le lt)
  have p: "previousStats ?s1 = cellularSnapshot rx1 tx1 JUndefined" by simp
  show ?thesis
    unfolding twoPolls_def first
    by (simp add: refresh_cellular_next [OF p] parse_zero_lifetime g1 pushHistory_empty
        saveBandwidthData_def)
qed

lemma afterFirstPoll_eq:
  "afterFirstPoll =
     \<lparr> timeseries_data = [cellularRow 0 200 1000 (Some 0)], bandwidth_history = [],
       previousStats = cellularSnapshot (JStr ''1000'') (JStr ''200'') JUndefined,
       historyDownload = [], historyUpload = [] \<rparr>"
proof -
  have g0: "handleDataGap [] 0 (Some 0) = (False, [])"
    by (rule handleDataGap_same_lifetime) (simp add: lastEntry_def)
  have p: "parseIntOr0 (JStr ''1000'') = 1000" "parseIntOr0 (JStr ''200'') = 200"
    by code_simp+
  show ?thesis
    by (simp add: afterFirstPoll_def refresh_cellular_first startup_empty parse_zero_lifetime g0 p)
qed

lemma parse_scenario:
  "parseIntOr0 (JStr ''1000'') = 1000" "parseIntOr0 (JStr ''200'') = 200"
  "parseIntOr0 (JStr ''1500'') = 1500" "parseIntOr0 (JStr ''300'') = 300"
  "parseIntOr0 (JStr ''400'') = 400"
  by code_simp+

lemma bandwidth_scenario:
  "calculateBandwidth 1500 1000 POLL_INTERVAL = Some 100"
  "calculateBandwidth 300 200 POLL_INTERVAL = Some 20"
  "calculateBandwidth 400 1000 POLL_INTERVAL = Some 0"
  by (simp_all add: calculateBandwidth_def POLL_INTERVAL_def)



lemma calculateBandwidth_decrease:
  assumes "currentBytes < previousBytes"
  shows "calculateBandwidth currentBytes previousBytes POLL_INTERVAL = Some 0"
proof -
  have p: "0 < POLL_INTERVAL" by (simp add: POLL_INTERVAL_def)
  from assms have "rat_of_int (currentBytes - previousBytes) / rat_of_int POLL_INTERVAL * 1000 \<le> 0"
    using p by (simp add: divide_nonpos_pos mult_le_0_iff)
  then show ?thesis
    using p by (simp add: calculateBandwidth_def Let_def max_def)
qed

lemma bandwidthStep_eq:
  assumes "truthy (previousStats s)"
    and "aggregateTotals (previousStats s) = Inr (prevDownload, prevUpload)"
  shows "bandwidthStep s currentDownload currentUpload bwNow =
    (None, s\<lparr> bandwidth_history :=
                saveBandwidthData (bandwidth_history s) bwNow
                  (calculateBandwidth currentDownload prevDownload POLL_INTERVAL)
                  (calculateBandwidth currentUpload prevUpload POLL_INTERVAL),
              historyDownload :=
                fst (pushHistory (historyDownload s, historyUpload s)
                  (calculateBandwidth currentDownload prevDownload POLL_INTERVAL)
                  (calculateBandwidth currentUpload prevUpload POLL_INTERVAL)),
              historyUpload :=
                snd (pushHistory (historyDownload s, historyUpload s)
                  (calculateBandwidth currentDownload prevDownload POLL_INTERVAL)
                  (calculateBandwidth currentUpload prevUpload POLL_INTERVAL)) \<rparr>)"
  using assms by (simp add: bandwidthStep_def Let_def)

text \<open>
  Claim C5, as amended. Take the bandwidth step of a poll cycle, run on the aggregate
  totals of the current snapshot while a previous snapshot is held whose counter fields
  have a string (as those of every snapshot have that a cycle completed on). Whenever
  the current download (or upload) total is strictly less than that of the previous
  snapshot, the speed computed for that direction is 0; both speeds are numbers that
  are never negative. The sample is kept: the step writes it to
  \<^verbatim>\<open>bandwidth_history\<close> and pushes it onto the in-memory history, with 0 for the
  direction whose counter went back, and throws nothing.
\<close>

theorem rollover_reports_zero:
  assumes "truthy (previousStats s)"
    and "list_all stringifies (counterFields (previousStats s))"
    and "aggregateTotals (previousStats s) = Inr (prevDownload, prevUpload)"
  shows "\<exists>d u s'. bandwidthStep s currentDownload currentUpload bwNow = (None, s')
    \<and> d = calculateBandwidth currentDownload prevDownload POLL_INTERVAL
    \<and> u = calculateBandwidth currentUpload prevUpload POLL_INTERVAL
    \<and> (currentDownload < prevDownload \<longrightarrow> d = Some 0)
    \<and> (currentUpload < prevUpload \<longrightarrow> u = Some 0)
    \<and> (\<exists>v. d = Some v \<and> 0 \<le> v) \<and> (\<exists>v. u = Some v \<and> 0 \<le> v)
    \<and> bandwidth_history s' =
        bandwidth_history s @ [\<lparr> bw_timestamp = bwNow, download_speed = d, upload_speed = u \<rparr>]
    \<and> historyOf s' = pushHistory (historyOf s) d u"
proof -
  let ?d = "calculateBandwidth currentDownload prevDownload POLL_INTERVAL"
  let ?u = "calculateBandwidth currentUpload prevUpload POLL_INTERVAL"
  have p: "0 < POLL_INTERVAL" by (simp add: POLL_INTERVAL_def)
  note step = bandwidthStep_eq [OF assms(1) assms(3), of currentDownload currentUpload bwNow]
  show ?thesis
    apply (rule exI [of _ ?d], rule exI [of _ ?u])
    apply (subst step)
    apply (rule exI, rule conjI, rule refl)
    using calculateBandwidth_nonneg [OF p, of currentDownload prevDownload]
      calculateBandwidth_nonneg [OF p, of currentUpload prevUpload] calculateBandwidth_decrease
    apply (simp add: saveBandwidthData_def historyOf_def)
    done
qed

lemma rolloverSnapshot_facts:
  "validData rolloverSnapshot" "hasDataUsage rolloverSnapshot"
  "normalize rolloverSnapshot = Inr (cellularOnly 400 300 (Some 0))"
  "signalOf rolloverSnapshot = Inr (JNum 60, JNum (- 95), JNum (- 11), JNum 7)"
  "aggregateTotals rolloverSnapshot = Inr (400, 300)"
  by (simp_all add: rolloverSnapshot_def cellularSnapshot_guards cellularSnapshot_normalize
      cellularSnapshot_signal cellularSnapshot_totals parse_scenario parse_zero_lifetime)

lemma afterFirstPoll_previous:
  "truthy (previousStats afterFirstPoll)"
  "list_all stringifies (counterFields (previousStats afterFirstPoll))"
  "aggregateTotals (previousStats afterFirstPoll) = Inr (1000, 200)"
  by (simp_all add: afterFirstPoll_eq cellularSnapshot_guards cellularSnapshot_totals parse_scenario
      counterFields_def cellularSnapshot_paths)

theorem rollover_reports_zero_witness:
  "truthy (previousStats afterFirstPoll)
   \<and> list_all stringifies (counterFields (previousStats afterFirstPoll))
   \<and> aggregateTotals (previousStats afterFirstPoll) = Inr (1000, 200)
   \<and> aggregateTotals rolloverSnapshot = Inr (400, 300)
   \<and> (\<exists>s'. bandwidthStep afterFirstPoll 400 300 5001 = (None, s')
         \<and> bandwidth_history s' =
             bandwidth_history afterFirstPoll
               @ [\<lparr> bw_timestamp = 5001, download_speed = Some 0, upload_speed = Some 20 \<rparr>]
         \<and> historyOf s' = pushHistory (historyOf afterFirstPoll) (Some 0) (Some 20))"
proof -
  note h = afterFirstPoll_previous
  from rollover_reports_zero [OF h, of 400 300 5001]
  obtain d u s' where s': "bandwidthStep afterFirstPoll 400 300 5001 = (None, s')"
    and d: "400 < (1000::int) \<longrightarrow> d = Some 0"
    and u: "u = calculateBandwidth 300 200 POLL_INTERVAL"
    and b: "bandwidth_history s' =
        bandwidth_history afterFirstPoll @ [\<lparr> bw_timestamp = 5001, download_speed = d, upload_speed = u \<rparr>]"
    and p: "historyOf s' = pushHistory (historyOf afterFirstPoll) d u"
    by (elim exE conjE)
  from d have d0: "d = Some 0" by simp
  from u have u0: "u = Some 20" by (simp add: bandwidth_scenario)
  from s' b p have e: "\<exists>s'. bandwidthStep afterFirstPoll 400 300 5001 = (None, s')
         \<and> bandwidth_history s' =
             bandwidth_history afterFirstPoll
               @ [\<lparr> bw_timestamp = 5001, download_speed = Some 0, upload_speed = Some 20 \<rparr>]
         \<and> historyOf s' = pushHistory (historyOf afterFirstPoll) (Some 0) (Some 20)"
    by (simp add: d0 u0)
  from h rolloverSnapshot_facts(5) e show ?thesis by (intro conjI)
qed

theorem rollover_counterexample:
  "aggregateTotals (previousStats afterFirstPoll) = Inr (1000, 200)
   \<and> aggregateTotals rolloverSnapshot = Inr (400, 300)
   \<and> dataBars 400 300 = None
   \<and> bandwidth_history afterFirstPoll = []
   \<and> historyOf afterFirstPoll = ([], [])
   \<and> fst (displayStats afterFirstPoll rolloverSnapshot 5000 5001) = None
   \<and> bandwidth_history (snd (displayStats afterFirstPoll rolloverSnapshot 5000 5001))
       = [\<lparr> bw_timestamp = 5001, download_speed = Some 0, upload_speed = Some 20 \<rparr>]
   \<and> historyOf (snd (displayStats afterFirstPoll rolloverSnapshot 5000 5001)) = ([Some 0], [Some 20])"
proof -
  let ?n = "cellularOnly 400 300 (Some 0)"
  note r = rolloverSnapshot_facts
  note h = afterFirstPoll_previous
  have sel: "totalDownload ?n = 400" "totalUpload ?n = 300"
    by (simp_all add: cellularOnly_def)
  have bars: "dataBars 400 300 = None"
    by (simp add: dataBars_def createDataBar_def)
  have e: "bandwidth_history afterFirstPoll = []" "historyOf afterFirstPoll = ([], [])"
    "historyDownload afterFirstPoll = []" "historyUpload afterFirstPoll = []"
    by (simp_all add: afterFirstPoll_eq historyOf_def)
  note ds = displayStats_next [OF r(1) r(2) r(3) r(4) h(1) h(3)]
  have f: "fst (displayStats afterFirstPoll rolloverSnapshot 5000 5001) = None"
    by (simp add: ds)
  have b: "bandwidth_history (snd (displayStats afterFirstPoll rolloverSnapshot 5000 5001))
       = [\<lparr> bw_timestamp = 5001, download_speed = Some 0, upload_speed = Some 20 \<rparr>]"
    by (simp add: ds sel bandwidth_scenario e saveBandwidthData_def)
  have hi: "historyOf (snd (displayStats afterFirstPoll rolloverSnapshot 5000 5001)) = ([Some 0], [Some 20])"
    by (simp add: ds sel bandwidth_scenario e pushHistory_empty historyOf_def)
  from h(3) r(5) bars e(1,2) f b hi show ?thesis by (intro conjI)
qed

section \<open>Speeds recomputed from the persisted rows\<close>

lemma newestFirst_pair:
  assumes "ts a < ts b"
  shows "rev (newestFirst ts (maxSamples + 1) [a, b]) = [a, b]"
  using assms by (simp add: newestFirst_def maxSamples_def)

lemma speeds_of_pair:
  assumes "timestamp a < timestamp b"
  shows "calculateSpeedsFromTimeseries [a, b] maxSamples = speedsLoop [a, b]"
  using newestFirst_pair [of timestamp a b, OF assms]
  by (simp add: calculateSpeedsFromTimeseries_def Let_def newestFirst_def)

text \<open>
  Claim C1 says that the speeds recomputed from two adjacent persisted records equal
  the speeds the live poll cycle computed from the same two snapshots. The code does
  otherwise on the end-to-end scenario of the specification: from empty tables, a poll
  at time 0 of a snapshot with aggregate download 1000 and upload 200, and a poll at
  5000 ms of one with download 1500 and upload 300. The live cycle computes download
  100 and upload 20 bytes per second. \<^verbatim>\<open>displayStats\<close> passes \<^verbatim>\<open>totalUpload\<close> for the
  parameter \<^verbatim>\<open>totalRx\<close> of \<^verbatim>\<open>saveTimeseriesData\<close> and \<^verbatim>\<open>totalDownload\<close> for
  \<^verbatim>\<open>totalTx\<close>, so the two records hold the upload totals 200 and 300 in
  \<^verbatim>\<open>total_rx_bytes\<close> and the download totals 1000 and 1500 in \<^verbatim>\<open>total_tx_bytes\<close>, and
  \<^verbatim>\<open>calculateSpeedsFromTimeseries\<close>, which reads \<^verbatim>\<open>total_rx_bytes\<close> as download,
  returns download 20 and upload 100.
\<close>

theorem persisted_columns_swapped:
  "aggregateTotals (cellularSnapshot (JStr ''1000'') (JStr ''200'') JUndefined) = Inr (1000, 200)
   \<and> aggregateTotals (cellularSnapshot (JStr ''1500'') (JStr ''300'') JUndefined) = Inr (1500, 300)
   \<and> historyOf (twoPolls 0 0 (JStr ''1000'') (JStr ''200'') 5000 (JStr ''1500'') (JStr ''300''))
     = ([Some 100], [Some 20])
   \<and> bandwidth_history (twoPolls 0 0 (JStr ''1000'') (JStr ''200'') 5000 (JStr ''1500'') (JStr ''300''))
     = [\<lparr> bw_timestamp = 5000, download_speed = Some 100, upload_speed = Some 20 \<rparr>]
   \<and> timeseries_data (twoPolls 0 0 (JStr ''1000'') (JStr ''200'') 5000 (JStr ''1500'') (JStr ''300''))
     = [cellularRow 0 200 1000 (Some 0), cellularRow 5000 300 1500 (Some 0)]
   \<and> map total_rx_bytes
       (timeseries_data (twoPolls 0 0 (JStr ''1000'') (JStr ''200'') 5000 (JStr ''1500'') (JStr ''300'')))
     = [200, 300]
   \<and> map total_tx_bytes
       (timeseries_data (twoPolls 0 0 (JStr ''1000'') (JStr ''200'') 5000 (JStr ''1500'') (JStr ''300'')))
     = [1000, 1500]
   \<and> calculateSpeedsFromTimeseries
       (timeseries_data (twoPolls 0 0 (JStr ''1000'') (JStr ''200'') 5000 (JStr ''1500'') (JStr ''300'')))
       maxSamples
     = \<lparr> download = [Some 20], upload = [Some 100], timestamps = [5000] \<rparr>"
proof -
  let ?s = "twoPolls 0 0 (JStr ''1000'') (JStr ''200'') 5000 (JStr ''1500'') (JStr ''300'')"
  let ?a = "cellularRow 0 200 1000 (Some 0)" and ?b = "cellularRow 5000 300 1500 (Some 0)"
  have t1: "aggregateTotals (cellularSnapshot (JStr ''1000'') (JStr ''200'') JUndefined) = Inr (1000, 200)"
    and t2: "aggregateTotals (cellularSnapshot (JStr ''1500'') (JStr ''300'') JUndefined) = Inr (1500, 300)"
    by (simp_all add: cellularSnapshot_totals parse_scenario)
  have rows: "timeseries_data ?s = [?a, ?b]"
    by (simp add: twoPolls_eq parse_scenario)
  have h: "historyOf ?s = ([Some 100], [Some 20])"
    by (simp add: twoPolls_eq parse_scenario bandwidth_scenario historyOf_def)
  have bw: "bandwidth_history ?s
      = [\<lparr> bw_timestamp = 5000, download_speed = Some 100, upload_speed = Some 20 \<rparr>]"
    by (simp add: twoPolls_eq parse_scenario bandwidth_scenario)
  have lt: "timestamp ?a < timestamp ?b" by (simp add: cellularRow_def)
  have rx: "map total_rx_bytes (timeseries_data ?s) = [200, 300]"
    by (simp add: rows cellularRow_def)
  have tx: "map total_tx_bytes (timeseries_data ?s) = [1000, 1500]"
    by (simp add: rows cellularRow_def)
  have "speedsLoop [?a, ?b] = \<lparr> download = [Some 20], upload = [Some 100], timestamps = [5000] \<rparr>"
    by (simp add: cellularRow_def Let_def)
  then have c: "calculateSpeedsFromTimeseries (timeseries_data ?s) maxSamples
     = \<lparr> download = [Some 20], upload = [Some 100], timestamps = [5000] \<rparr>"
    by (simp only: rows speeds_of_pair [OF lt])
  from t1 t2 h bw rows rx tx c show ?thesis by (intro conjI)
qed

section \<open>Usage windows over tables that a run of the monitor writes\<close>

theorem usage_window_counterexample:
  "timeseries_data afterFirstPoll = [cellularRow 0 200 1000 (Some 0)]
   \<and> length (windowRows (timeseries_data afterFirstPoll) (1000 - 5 * 60 * 1000)) = 1
   \<and> calculateUsageOverTime (timeseries_data afterFirstPoll) 1000 =
       [(''5m'', Some 0), (''15m'', Some 0), (''30m'', Some 0), (''45m'', Some 0),
        (''1h'', Some 0), (''6h'', Some 0), (''12h'', Some 0), (''24h'', Some 0)]"
  by (simp add: afterFirstPoll_eq calculateUsageOverTime_def periods_def usageSince_def
      windowRows_def cellularRow_def aggregateBytes_def)

lemma startup_single:
  "startup [r] [] 0 =
     \<lparr> timeseries_data = (if timestamp r < - (7 * 24 * 60 * 60 * 1000) then [] else [r]),
       bandwidth_history = [], previousStats = JNull,
       historyDownload = [], historyUpload = [] \<rparr>"
  by (simp add: startup_def calculateSpeedsFromTimeseries_def loadBandwidthHistory_def
      newestFirst_def)

lemma negativeGapTable_eq:
  "negativeGapTable =
     [cellularRow 0 200 1000 (Some 1000),
      interpolatedRow 5000 1100, interpolatedRow 10000 1200, interpolatedRow 15000 1300,
      interpolatedRow 20000 1400, interpolatedRow 25000 1500, interpolatedRow 30000 1600,
      interpolatedRow 35000 1700, interpolatedRow 40000 1800, interpolatedRow 45000 1900,
      cellularRow 50000 0 (- 5) (Some 2000)]"
proof -
  let ?a = "cellularRow 0 200 1000 (Some 1000)"
  have t: "timestamp ?a = 0" by (simp add: cellularRow_def)
  have s: "startup [?a] [] 0 =
     \<lparr> timeseries_data = [?a], bandwidth_history = [], previousStats = JNull,
       historyDownload = [], historyUpload = [] \<rparr>"
    by (simp add: startup_single t)
  have p: "parseInt (orElse (JStr ''2000'') (JNum 0)) = Some 2000"
    "parseIntOr0 JUndefined = 0" "parseIntOr0 (JStr ''-5'') = - 5"
    by (simp add: orElse_def, code_simp+)
  show ?thesis
    unfolding negativeGapTable_def s
    by (simp add: refresh_cellular_first p gap_example) (simp add: POLL_INTERVAL_def)
qed

theorem synthetic_records_counterexample:
  "negativeGapTable =
     [cellularRow 0 200 1000 (Some 1000),
      interpolatedRow 5000 1100, interpolatedRow 10000 1200, interpolatedRow 15000 1300,
      interpolatedRow 20000 1400, interpolatedRow 25000 1500, interpolatedRow 30000 1600,
      interpolatedRow 35000 1700, interpolatedRow 40000 1800, interpolatedRow 45000 1900,
      cellularRow 50000 0 (- 5) (Some 2000)]
   \<and> windowRows negativeGapTable 0 = negativeGapTable
   \<and> sqlMin (map aggregateBytes (windowRows negativeGapTable 0)) = Some (- 5)
   \<and> sqlMax (map aggregateBytes (windowRows negativeGapTable 0)) = Some 1200
   \<and> usageSince negativeGapTable 0 = Some 1205"
proof -
  have w: "windowRows negativeGapTable 0 = negativeGapTable"
    by (simp add: negativeGapTable_eq windowRows_def cellularRow_def interpolatedRow_def)
  have a: "map aggregateBytes negativeGapTable = [1200, 0, 0, 0, 0, 0, 0, 0, 0, 0, - 5]"
    by (simp add: negativeGapTable_eq aggregateBytes_def cellularRow_def interpolatedRow_def)
  have mn: "sqlMin (map aggregateBytes (windowRows negativeGapTable 0)) = Some (- 5)"
    and mx: "sqlMax (map aggregateBytes (windowRows negativeGapTable 0)) = Some 1200"
    by (simp_all add: w a)
  have u: "usageSince negativeGapTable 0 = Some 1205"
    by (simp add: usageSince_def w a)
  from negativeGapTable_eq w mn mx u show ?thesis by (intro conjI)
qed

end
